theory Spec2Isabelle
  imports Main "HOL-Library.Word"
begin

unbundle bit_operations_syntax

chapter \<open>The publish/subscribe wire protocol: message codec and authorization tokens\<close>

text \<open>
  The development embeds the broadcaster-to-subscriber message modules
  (\<open>confirm_subscribe.py\<close>, \<open>confirm_unsubscribe.py\<close>, \<open>confirm_notify.py\<close>,
  \<open>continue_notify.py\<close>) and the type registry of \<open>constants.py\<close>. The modules import
  their helpers from \<open>parser_helpers\<close>, \<open>serializer_helpers\<close>, \<open>generic_parser\<close> and
  \<open>sync_io\<close>, which are not among the source files: those helpers are modelled from the
  specification and every such definition says so. Definitions come first, theorems after.
\<close>

section \<open>Bytes, integers and errors\<close>

text \<open>
  A Python \<open>bytes\<close> value is a list of octets. The integer fields of the messages
  (\<open>subscribers\<close>, \<open>part_id\<close>) are Python integers that count something: they are
  unbounded, and the parsers only ever build them with \<open>int.from_bytes(_, "big")\<close>, so
  they are natural numbers here.
\<close>

type_synonym byte = "8 word"

type_synonym bytes = "byte list"

text \<open>
  The exceptions the modelled code can raise, as values. \<open>ValueError\<close> carries the
  message of the \<open>raise ValueError(...)\<close> statements of the parsers (the specification
  calls this failure MalformedMessage); \<open>KeyError\<close> is a missing key of the header
  dictionary; \<open>AssertionError\<close> is the failed \<open>assert type == ...\<close> at the head of every
  parser; \<open>UnicodeDecodeError\<close> and \<open>UnicodeEncodeError\<close> are the failures of
  \<open>bytes.decode("utf-8")\<close> and \<open>str.encode("utf-8")\<close>; \<open>MalformedHeader\<close> and
  \<open>UnknownMessageType\<close> are the failures of the header codec and of the dispatcher as the
  specification names them (section 7).
\<close>

datatype error =
    MalformedHeader
  | ValueError string
  | KeyError string
  | AssertionError
  | UnicodeDecodeError
  | UnicodeEncodeError
  | UnknownMessageType

text \<open>
  Python's \<open>int.from_bytes(bs, "big")\<close> (unsigned): the empty byte string is 0.
\<close>

definition int_from_bytes_big :: "bytes \<Rightarrow> nat" where
  "int_from_bytes_big bs = foldl (\<lambda>acc b. acc * 256 + unat b) 0 bs"

text \<open>
  Modelled from the spec: \<open>int_to_minimal_unsigned\<close> (module \<open>serializer_helpers\<close>) is
  imported by \<open>confirm_notify.py\<close> and \<open>continue_notify.py\<close> but is not among the source
  files. Section 4.2: \<open>encode_unsigned(n)\<close> produces the fewest big-endian bytes
  representing \<open>n\<close>, and 0 is one zero byte, never empty.
\<close>

fun int_to_minimal_unsigned :: "nat \<Rightarrow> bytes" where
  "int_to_minimal_unsigned n =
     (if n < 256 then [of_nat n]
      else int_to_minimal_unsigned (n div 256) @ [of_nat (n mod 256)])"

declare int_to_minimal_unsigned.simps [simp del]

section \<open>The header codec\<close>

text \<open>
  \<open>PubSubWSMessageFlags.MINIMAL_HEADERS = 1 << 0\<close> (\<open>constants.py\<close>, line 5). The flags
  travel in one byte of the frame (specification, section 6).
\<close>

definition MINIMAL_HEADERS :: byte where
  "MINIMAL_HEADERS = push_bit 0 1"

text \<open>
  Header names are Python strings in the source (\<open>"x-identifier"\<close>, ...), all of them
  ASCII, and byte strings on the wire. They are Isabelle strings here, one character per
  byte in both directions.
\<close>

definition name_bytes :: "string \<Rightarrow> bytes" where
  "name_bytes s = map (\<lambda>c. of_nat (of_char c)) s"

text \<open>The name found on the wire, as the key of the header dictionary.\<close>

definition bytes_name :: "bytes \<Rightarrow> string" where
  "bytes_name bs = map (\<lambda>b. char_of (unat b)) bs"

text \<open>
  Modelled from the spec: the two-byte big-endian unsigned length that precedes every name
  and value of a header section (section 4.1); the helper that writes it is not among the
  source files.
\<close>

definition u16_be :: "nat \<Rightarrow> bytes" where
  "u16_be n = [of_nat (n div 256), of_nat (n mod 256)]"

text \<open>
  Modelled from the spec: the byte reader (\<open>SyncReadableBytesIO\<close>, module \<open>sync_io\<close>, not
  among the source files) is the list of bytes still to be read; a read returns the bytes
  read and the rest. Reading past the end of the frame is a size violation
  (\<open>MalformedHeader\<close>, section 7).
\<close>

definition read_exact :: "nat \<Rightarrow> bytes \<Rightarrow> error + bytes \<times> bytes" where
  "read_exact n buf =
     (if length buf < n then Inl MalformedHeader else Inr (take n buf, drop n buf))"

text \<open>
  Modelled from the spec: one length-prefixed item of a header section, a two-byte
  big-endian length and then that many bytes (section 4.1).
\<close>

definition read_length_prefixed :: "bytes \<Rightarrow> error + bytes \<times> bytes" where
  "read_length_prefixed buf =
     (case read_exact 2 buf of
        Inl e \<Rightarrow> Inl e
      | Inr (lb, rest) \<Rightarrow> read_exact (int_from_bytes_big lb) rest)"

text \<open>
  Modelled from the spec: the decoder of a header section (section 4.1), the loop of
  \<open>parse_simple_headers\<close> (module \<open>parser_helpers\<close>, not among the source files). In
  minimal mode every expected name, in its fixed order, takes the next length-prefixed
  value. In explicit mode as many (name, value) pairs are read as names are expected, and
  the names found on the wire are the keys. The result is the dictionary, filled in
  reading order (a later entry replaces an earlier one with the same key), and the unread
  rest of the frame. A name longer than 65535 bytes fails with \<open>MalformedHeader\<close>
  ("both name and value must be at most 65535 bytes; decoding fails otherwise").
\<close>

fun parse_headers_loop ::
  "bool \<Rightarrow> string list \<Rightarrow> bytes \<Rightarrow> (string \<rightharpoonup> bytes) \<Rightarrow> error + (string \<rightharpoonup> bytes) \<times> bytes" where
  "parse_headers_loop minimal [] buf acc = Inr (acc, buf)"
| "parse_headers_loop minimal (n # ns) buf acc =
     (if 65535 < length n then Inl MalformedHeader
      else if minimal then
        (case read_length_prefixed buf of
           Inl e \<Rightarrow> Inl e
         | Inr (v, rest) \<Rightarrow> parse_headers_loop minimal ns rest (acc(n \<mapsto> v)))
      else
        (case read_length_prefixed buf of
           Inl e \<Rightarrow> Inl e
         | Inr (nb, rest) \<Rightarrow>
             (case read_length_prefixed rest of
                Inl e \<Rightarrow> Inl e
              | Inr (v, rest') \<Rightarrow>
                  parse_headers_loop minimal ns rest' (acc(bytes_name nb \<mapsto> v)))))"

text \<open>
  Modelled from the spec: \<open>parse_simple_headers(flags, payload, header_names)\<close> of module
  \<open>parser_helpers\<close> (called by every parser, not among the source files): the mode is bit
  0 of the flags, and decoding starts from the empty dictionary.
\<close>

definition parse_simple_headers ::
  "byte \<Rightarrow> bytes \<Rightarrow> string list \<Rightarrow> error + (string \<rightharpoonup> bytes) \<times> bytes" where
  "parse_simple_headers flags payload header_names =
     parse_headers_loop (flags AND MINIMAL_HEADERS \<noteq> 0) header_names payload Map.empty"

text \<open>
  Modelled from the spec: one header on the wire (section 4.1). Explicit mode emits the
  length-prefixed name and then the length-prefixed value; minimal mode emits the
  length-prefixed value only.
\<close>

definition serialize_header :: "string \<Rightarrow> bytes \<Rightarrow> bool \<Rightarrow> bytes" where
  "serialize_header n v minimal =
     (if minimal then [] else u16_be (length n) @ name_bytes n) @ u16_be (length v) @ v"

text \<open>
  Modelled from the spec: the encoder of a header section (section 4.1), the header part of
  \<open>serialize_simple_message\<close> (module \<open>serializer_helpers\<close>, not among the source
  files). A name or a value longer than 65535 bytes fails with \<open>MalformedHeader\<close>
  (sections 4.1 and 8), and so does a value list that does not match the name list (a
  count violation, section 7).
\<close>

fun serialize_simple_headers :: "string list \<Rightarrow> bytes list \<Rightarrow> bool \<Rightarrow> error + bytes" where
  "serialize_simple_headers [] [] minimal = Inr []"
| "serialize_simple_headers (n # ns) (v # vs) minimal =
     (if 65535 < length n \<or> 65535 < length v then Inl MalformedHeader
      else case serialize_simple_headers ns vs minimal of
        Inl e \<Rightarrow> Inl e
      | Inr rest \<Rightarrow> Inr (serialize_header n v minimal @ rest))"
| "serialize_simple_headers _ _ minimal = Inl MalformedHeader"

section \<open>Python strings and UTF-8\<close>

text \<open>
  A Python \<open>str\<close> is a sequence of code points; \<open>glob.encode("utf-8")\<close> and
  \<open>headers["x-glob"].decode("utf-8")\<close> are Python's strict UTF-8 codec. The codec is
  written on the numeric values of the bytes and lifted to \<open>bytes\<close> afterwards.
\<close>

type_synonym str = "nat list"

text \<open>
  The UTF-8 form of one code point: one to four bytes. A surrogate (D800 to DFFF) and a
  number that is no code point (above 10FFFF) have none: \<open>str.encode\<close> raises
  \<open>UnicodeEncodeError\<close> on a lone surrogate.
\<close>

definition utf8_encode_char :: "nat \<Rightarrow> nat list option" where
  "utf8_encode_char c =
     (if c < 0x80 then Some [c]
      else if c < 0x800 then Some [0xC0 + c div 64, 0x80 + c mod 64]
      else if c < 0x10000 then
        (if 0xD800 \<le> c \<and> c \<le> 0xDFFF then None
         else Some [0xE0 + c div 4096, 0x80 + c div 64 mod 64, 0x80 + c mod 64])
      else if c < 0x110000 then
        Some [0xF0 + c div 262144, 0x80 + c div 4096 mod 64, 0x80 + c div 64 mod 64,
              0x80 + c mod 64]
      else None)"

fun utf8_encode :: "str \<Rightarrow> nat list option" where
  "utf8_encode [] = Some []"
| "utf8_encode (c # cs) =
     (case utf8_encode_char c of
        None \<Rightarrow> None
      | Some bs \<Rightarrow> map_option ((@) bs) (utf8_encode cs))"

definition is_continuation :: "nat \<Rightarrow> bool" where
  "is_continuation b = (0x80 \<le> b \<and> b < 0xC0)"

text \<open>
  Strict decoding, as \<open>bytes.decode("utf-8")\<close> does it: a lead byte announces the length
  of its sequence, every following byte must be a continuation byte (80 to BF), and the
  code point must need that length (no overlong form), must not be a surrogate and must
  not exceed 10FFFF. Anything else, a truncated sequence included, is an error.
\<close>

fun utf8_decode :: "nat list \<Rightarrow> str option" where
  "utf8_decode [] = Some []"
| "utf8_decode (b0 # bs) =
     (if b0 < 0x80 then map_option ((#) b0) (utf8_decode bs)
      else if b0 < 0xC0 then None
      else if b0 < 0xE0 then
        (case bs of
           b1 # r \<Rightarrow>
             (let c = (b0 - 0xC0) * 64 + (b1 - 0x80)
              in if is_continuation b1 \<and> 0x80 \<le> c
                 then map_option ((#) c) (utf8_decode r) else None)
         | _ \<Rightarrow> None)
      else if b0 < 0xF0 then
        (case bs of
           b1 # b2 # r \<Rightarrow>
             (let c = (b0 - 0xE0) * 4096 + (b1 - 0x80) * 64 + (b2 - 0x80)
              in if is_continuation b1 \<and> is_continuation b2 \<and> 0x800 \<le> c
                    \<and> \<not> (0xD800 \<le> c \<and> c \<le> 0xDFFF)
                 then map_option ((#) c) (utf8_decode r) else None)
         | _ \<Rightarrow> None)
      else if b0 < 0xF8 then
        (case bs of
           b1 # b2 # b3 # r \<Rightarrow>
             (let c = (b0 - 0xF0) * 262144 + (b1 - 0x80) * 4096 + (b2 - 0x80) * 64 + (b3 - 0x80)
              in if is_continuation b1 \<and> is_continuation b2 \<and> is_continuation b3
                    \<and> 0x10000 \<le> c \<and> c < 0x110000
                 then map_option ((#) c) (utf8_decode r) else None)
         | _ \<Rightarrow> None)
      else None)"

text \<open>\<open>s.encode("utf-8")\<close> and \<open>b.decode("utf-8")\<close> on Python values.\<close>

definition str_encode_utf8 :: "str \<Rightarrow> error + bytes" where
  "str_encode_utf8 s =
     (case utf8_encode s of None \<Rightarrow> Inl UnicodeEncodeError | Some bs \<Rightarrow> Inr (map of_nat bs))"

definition bytes_decode_utf8 :: "bytes \<Rightarrow> error + str" where
  "bytes_decode_utf8 b =
     (case utf8_decode (map unat b) of None \<Rightarrow> Inl UnicodeDecodeError | Some s \<Rightarrow> Inr s)"

section \<open>The message type registry\<close>

text \<open>
  \<open>BroadcasterToSubscriberWSMessageType\<close> (\<open>constants.py\<close>, lines 183 to 388), an
  \<open>IntEnum\<close> whose members are numbered by \<open>auto()\<close> from 1 in the order of their
  declaration. The two notify modules import the same enumeration under the name
  \<open>BroadcasterToSubscriberStatefulMessageType\<close>.
\<close>

datatype BroadcasterToSubscriberWSMessageType =
    CONFIRM_CONFIGURE
  | CONFIRM_SUBSCRIBE_EXACT
  | CONFIRM_SUBSCRIBE_GLOB
  | CONFIRM_UNSUBSCRIBE_EXACT
  | CONFIRM_UNSUBSCRIBE_GLOB
  | CONFIRM_NOTIFY
  | CONTINUE_NOTIFY
  | RECEIVE_STREAM
  | ENABLE_ZSTD_PRESET
  | ENABLE_ZSTD_CUSTOM

fun b2s_type_value :: "BroadcasterToSubscriberWSMessageType \<Rightarrow> nat" where
  "b2s_type_value CONFIRM_CONFIGURE = 1"
| "b2s_type_value CONFIRM_SUBSCRIBE_EXACT = 2"
| "b2s_type_value CONFIRM_SUBSCRIBE_GLOB = 3"
| "b2s_type_value CONFIRM_UNSUBSCRIBE_EXACT = 4"
| "b2s_type_value CONFIRM_UNSUBSCRIBE_GLOB = 5"
| "b2s_type_value CONFIRM_NOTIFY = 6"
| "b2s_type_value CONTINUE_NOTIFY = 7"
| "b2s_type_value RECEIVE_STREAM = 8"
| "b2s_type_value ENABLE_ZSTD_PRESET = 9"
| "b2s_type_value ENABLE_ZSTD_CUSTOM = 10"

text \<open>The member with a given integer value, read from the type byte of a frame.\<close>

definition b2s_type_of_code :: "byte \<Rightarrow> BroadcasterToSubscriberWSMessageType option" where
  "b2s_type_of_code c =
     (if c = 1 then Some CONFIRM_CONFIGURE
      else if c = 2 then Some CONFIRM_SUBSCRIBE_EXACT
      else if c = 3 then Some CONFIRM_SUBSCRIBE_GLOB
      else if c = 4 then Some CONFIRM_UNSUBSCRIBE_EXACT
      else if c = 5 then Some CONFIRM_UNSUBSCRIBE_GLOB
      else if c = 6 then Some CONFIRM_NOTIFY
      else if c = 7 then Some CONTINUE_NOTIFY
      else if c = 8 then Some RECEIVE_STREAM
      else if c = 9 then Some ENABLE_ZSTD_PRESET
      else if c = 10 then Some ENABLE_ZSTD_CUSTOM
      else None)"

section \<open>The typed messages\<close>

text \<open>
  Each dataclass is a datatype with one constructor whose arguments are the fields in
  the order of their declaration: the discriminator \<open>type\<close> first, then
  \<open>topic\<close> (bytes), or \<open>glob\<close> (str), or \<open>identifier\<close> (bytes) followed by
  \<open>subscribers\<close> or \<open>part_id\<close> (int). The annotation of \<open>type\<close> is a
  \<open>Literal\<close> that Python does not enforce, so the field is kept as a value of
  the enumeration.
\<close>

datatype B2S_ConfirmSubscribeExact =
  B2S_ConfirmSubscribeExact BroadcasterToSubscriberWSMessageType bytes

datatype B2S_ConfirmSubscribeGlob =
  B2S_ConfirmSubscribeGlob BroadcasterToSubscriberWSMessageType str

datatype B2S_ConfirmUnsubscribeExact =
  B2S_ConfirmUnsubscribeExact BroadcasterToSubscriberWSMessageType bytes

datatype B2S_ConfirmUnsubscribeGlob =
  B2S_ConfirmUnsubscribeGlob BroadcasterToSubscriberWSMessageType str

datatype B2S_ConfirmNotify =
  B2S_ConfirmNotify BroadcasterToSubscriberWSMessageType bytes nat

datatype B2S_ContinueNotify =
  B2S_ContinueNotify BroadcasterToSubscriberWSMessageType bytes nat

section \<open>Parsers and serializers\<close>

text \<open>
  Modelled from the spec: \<open>serialize_simple_message\<close> of module \<open>serializer_helpers\<close>
  (called by every serializer, not among the source files). Section 6: a frame is one
  byte of flags, one byte of type code, the header section, and the body.
\<close>

definition serialize_simple_message ::
  "BroadcasterToSubscriberWSMessageType \<Rightarrow> string list \<Rightarrow> bytes list \<Rightarrow> bytes \<Rightarrow> bool
     \<Rightarrow> error + bytes" where
  "serialize_simple_message type header_names header_values payload minimal_headers =
     (case serialize_simple_headers header_names header_values minimal_headers of
        Inl e \<Rightarrow> Inl e
      | Inr hs \<Rightarrow>
          Inr ((if minimal_headers then MINIMAL_HEADERS else 0)
               # of_nat (b2s_type_value type) # hs @ payload))"

text \<open>
  The module-level header name tuples: \<open>_exact_headers\<close> and \<open>_glob_headers\<close> of
  \<open>confirm_subscribe.py\<close> (lines 48 and 100) and of \<open>confirm_unsubscribe.py\<close> (lines 31
  and 97), \<open>_headers\<close> of \<open>confirm_notify.py\<close> and of \<open>continue_notify.py\<close> (line 36).
\<close>

definition confirm_subscribe_exact_headers :: "string list" where
  "confirm_subscribe_exact_headers = [''x-topic'']"

definition confirm_subscribe_glob_headers :: "string list" where
  "confirm_subscribe_glob_headers = [''x-glob'']"

definition confirm_unsubscribe_exact_headers :: "string list" where
  "confirm_unsubscribe_exact_headers = [''x-topic'']"

definition confirm_unsubscribe_glob_headers :: "string list" where
  "confirm_unsubscribe_glob_headers = [''x-glob'']"

definition confirm_notify_headers :: "string list" where
  "confirm_notify_headers = [''x-identifier'', ''x-subscribers'']"

definition continue_notify_headers :: "string list" where
  "continue_notify_headers = [''x-identifier'', ''x-part-id'']"

text \<open>
  \<open>B2S_ConfirmSubscribeExactParser.parse\<close> and \<open>serialize_b2s_confirm_subscribe_exact\<close>
  (\<open>confirm_subscribe.py\<close>, lines 58 to 72 and 81 to 91). The parser drops the unread rest
  of the payload: the message has no body.
\<close>

definition B2S_ConfirmSubscribeExactParser_parse ::
  "byte \<Rightarrow> BroadcasterToSubscriberWSMessageType \<Rightarrow> bytes \<Rightarrow> error + B2S_ConfirmSubscribeExact" where
  "B2S_ConfirmSubscribeExactParser_parse flags type payload =
     (if type \<noteq> CONFIRM_SUBSCRIBE_EXACT then Inl AssertionError
      else case parse_simple_headers flags payload confirm_subscribe_exact_headers of
        Inl e \<Rightarrow> Inl e
      | Inr (headers, rest) \<Rightarrow>
          (case headers ''x-topic'' of
             None \<Rightarrow> Inl (KeyError ''x-topic'')
           | Some topic \<Rightarrow> Inr (B2S_ConfirmSubscribeExact type topic)))"

fun serialize_b2s_confirm_subscribe_exact ::
  "B2S_ConfirmSubscribeExact \<Rightarrow> bool \<Rightarrow> error + bytes" where
  "serialize_b2s_confirm_subscribe_exact (B2S_ConfirmSubscribeExact type topic) minimal_headers =
     serialize_simple_message type confirm_subscribe_exact_headers [topic] [] minimal_headers"

text \<open>
  \<open>B2S_ConfirmSubscribeGlobParser.parse\<close> and \<open>serialize_b2s_confirm_subscribe_glob\<close>
  (\<open>confirm_subscribe.py\<close>, lines 110 to 124 and 133 to 143).
\<close>

definition B2S_ConfirmSubscribeGlobParser_parse ::
  "byte \<Rightarrow> BroadcasterToSubscriberWSMessageType \<Rightarrow> bytes \<Rightarrow> error + B2S_ConfirmSubscribeGlob" where
  "B2S_ConfirmSubscribeGlobParser_parse flags type payload =
     (if type \<noteq> CONFIRM_SUBSCRIBE_GLOB then Inl AssertionError
      else case parse_simple_headers flags payload confirm_subscribe_glob_headers of
        Inl e \<Rightarrow> Inl e
      | Inr (headers, rest) \<Rightarrow>
          (case headers ''x-glob'' of
             None \<Rightarrow> Inl (KeyError ''x-glob'')
           | Some glob_bytes \<Rightarrow>
               (case bytes_decode_utf8 glob_bytes of
                  Inl e \<Rightarrow> Inl e
                | Inr glob \<Rightarrow> Inr (B2S_ConfirmSubscribeGlob type glob))))"

fun serialize_b2s_confirm_subscribe_glob ::
  "B2S_ConfirmSubscribeGlob \<Rightarrow> bool \<Rightarrow> error + bytes" where
  "serialize_b2s_confirm_subscribe_glob (B2S_ConfirmSubscribeGlob type glob) minimal_headers =
     (case str_encode_utf8 glob of
        Inl e \<Rightarrow> Inl e
      | Inr glob_bytes \<Rightarrow>
          serialize_simple_message type confirm_subscribe_glob_headers [glob_bytes] []
            minimal_headers)"

text \<open>
  \<open>B2S_ConfirmUnsubscribeExactParser.parse\<close> and
  \<open>serialize_b2s_confirm_unsubscribe_exact\<close> (\<open>confirm_unsubscribe.py\<close>, lines 41 to 55
  and 64 to 74).
\<close>

definition B2S_ConfirmUnsubscribeExactParser_parse ::
  "byte \<Rightarrow> BroadcasterToSubscriberWSMessageType \<Rightarrow> bytes \<Rightarrow> error + B2S_ConfirmUnsubscribeExact" where
  "B2S_ConfirmUnsubscribeExactParser_parse flags type payload =
     (if type \<noteq> CONFIRM_UNSUBSCRIBE_EXACT then Inl AssertionError
      else case parse_simple_headers flags payload confirm_unsubscribe_exact_headers of
        Inl e \<Rightarrow> Inl e
      | Inr (headers, rest) \<Rightarrow>
          (case headers ''x-topic'' of
             None \<Rightarrow> Inl (KeyError ''x-topic'')
           | Some topic \<Rightarrow> Inr (B2S_ConfirmUnsubscribeExact type topic)))"

fun serialize_b2s_confirm_unsubscribe_exact ::
  "B2S_ConfirmUnsubscribeExact \<Rightarrow> bool \<Rightarrow> error + bytes" where
  "serialize_b2s_confirm_unsubscribe_exact (B2S_ConfirmUnsubscribeExact type topic) minimal_headers =
     serialize_simple_message type confirm_unsubscribe_exact_headers [topic] [] minimal_headers"

text \<open>
  \<open>B2S_ConfirmUnsubscribeGlobParser.parse\<close> and
  \<open>serialize_b2s_confirm_unsubscribe_glob\<close> (\<open>confirm_unsubscribe.py\<close>, lines 107 to 121
  and 130 to 140).
\<close>

definition B2S_ConfirmUnsubscribeGlobParser_parse ::
  "byte \<Rightarrow> BroadcasterToSubscriberWSMessageType \<Rightarrow> bytes \<Rightarrow> error + B2S_ConfirmUnsubscribeGlob" where
  "B2S_ConfirmUnsubscribeGlobParser_parse flags type payload =
     (if type \<noteq> CONFIRM_UNSUBSCRIBE_GLOB then Inl AssertionError
      else case parse_simple_headers flags payload confirm_unsubscribe_glob_headers of
        Inl e \<Rightarrow> Inl e
      | Inr (headers, rest) \<Rightarrow>
          (case headers ''x-glob'' of
             None \<Rightarrow> Inl (KeyError ''x-glob'')
           | Some glob_bytes \<Rightarrow>
               (case bytes_decode_utf8 glob_bytes of
                  Inl e \<Rightarrow> Inl e
                | Inr glob \<Rightarrow> Inr (B2S_ConfirmUnsubscribeGlob type glob))))"

fun serialize_b2s_confirm_unsubscribe_glob ::
  "B2S_ConfirmUnsubscribeGlob \<Rightarrow> bool \<Rightarrow> error + bytes" where
  "serialize_b2s_confirm_unsubscribe_glob (B2S_ConfirmUnsubscribeGlob type glob) minimal_headers =
     (case str_encode_utf8 glob of
        Inl e \<Rightarrow> Inl e
      | Inr glob_bytes \<Rightarrow>
          serialize_simple_message type confirm_unsubscribe_glob_headers [glob_bytes] []
            minimal_headers)"

text \<open>
  \<open>B2S_ConfirmNotifyParser.parse\<close> and \<open>serialize_b2s_confirm_notify\<close>
  (\<open>confirm_notify.py\<close>, lines 46 to 70 and 77 to 90). The checks come in the order of
  the source: the identifier is looked up and checked before the subscriber count is
  looked up.
\<close>

definition B2S_ConfirmNotifyParser_parse ::
  "byte \<Rightarrow> BroadcasterToSubscriberWSMessageType \<Rightarrow> bytes \<Rightarrow> error + B2S_ConfirmNotify" where
  "B2S_ConfirmNotifyParser_parse flags type payload =
     (if type \<noteq> CONFIRM_NOTIFY then Inl AssertionError
      else case parse_simple_headers flags payload confirm_notify_headers of
        Inl e \<Rightarrow> Inl e
      | Inr (headers, rest) \<Rightarrow>
          (case headers ''x-identifier'' of
             None \<Rightarrow> Inl (KeyError ''x-identifier'')
           | Some identifier \<Rightarrow>
               if 64 < length identifier
               then Inl (ValueError ''x-identifier must be at most 64 bytes'')
               else
                 (case headers ''x-subscribers'' of
                    None \<Rightarrow> Inl (KeyError ''x-subscribers'')
                  | Some subscriber_bytes \<Rightarrow>
                      if 8 < length subscriber_bytes
                      then Inl (ValueError ''x-subscribers must be at most 8 bytes'')
                      else Inr (B2S_ConfirmNotify type identifier
                                  (int_from_bytes_big subscriber_bytes)))))"

fun serialize_b2s_confirm_notify :: "B2S_ConfirmNotify \<Rightarrow> bool \<Rightarrow> error + bytes" where
  "serialize_b2s_confirm_notify (B2S_ConfirmNotify type identifier subscribers) minimal_headers =
     serialize_simple_message type confirm_notify_headers
       [identifier, int_to_minimal_unsigned subscribers] [] minimal_headers"

text \<open>
  \<open>B2S_ContinueNotifyParser.parse\<close> and \<open>serialize_b2s_continue_notify\<close>
  (\<open>continue_notify.py\<close>, lines 46 to 70 and 77 to 87).
\<close>

definition B2S_ContinueNotifyParser_parse ::
  "byte \<Rightarrow> BroadcasterToSubscriberWSMessageType \<Rightarrow> bytes \<Rightarrow> error + B2S_ContinueNotify" where
  "B2S_ContinueNotifyParser_parse flags type payload =
     (if type \<noteq> CONTINUE_NOTIFY then Inl AssertionError
      else case parse_simple_headers flags payload continue_notify_headers of
        Inl e \<Rightarrow> Inl e
      | Inr (headers, rest) \<Rightarrow>
          (case headers ''x-identifier'' of
             None \<Rightarrow> Inl (KeyError ''x-identifier'')
           | Some identifier \<Rightarrow>
               if 64 < length identifier
               then Inl (ValueError ''x-identifier must be at most 64 bytes'')
               else
                 (case headers ''x-part-id'' of
                    None \<Rightarrow> Inl (KeyError ''x-part-id'')
                  | Some part_id_bytes \<Rightarrow>
                      if 8 < length part_id_bytes
                      then Inl (ValueError ''x-part-id must be at most 8 bytes'')
                      else Inr (B2S_ContinueNotify type identifier
                                  (int_from_bytes_big part_id_bytes)))))"

fun serialize_b2s_continue_notify :: "B2S_ContinueNotify \<Rightarrow> bool \<Rightarrow> error + bytes" where
  "serialize_b2s_continue_notify (B2S_ContinueNotify type identifier part_id) minimal_headers =
     serialize_simple_message type continue_notify_headers
       [identifier, int_to_minimal_unsigned part_id] [] minimal_headers"

section \<open>The dispatcher\<close>

text \<open>
  The tagged variant over the message kinds that have a parser and a serializer in the
  source files (specification, section 3).
\<close>

datatype B2S_Message =
    ConfirmSubscribeExact B2S_ConfirmSubscribeExact
  | ConfirmSubscribeGlob B2S_ConfirmSubscribeGlob
  | ConfirmUnsubscribeExact B2S_ConfirmUnsubscribeExact
  | ConfirmUnsubscribeGlob B2S_ConfirmUnsubscribeGlob
  | ConfirmNotify B2S_ConfirmNotify
  | ContinueNotify B2S_ContinueNotify

text \<open>
  Modelled from the spec: the generic dispatcher (module \<open>generic_parser\<close>, not among the
  source files). Section 4.4: the parser is selected by the type code, and a code that
  no parser claims fails with \<open>UnknownMessageType\<close>; each parser claims the one type of
  its \<open>relevant_types\<close>.
\<close>

definition parse_b2s_message ::
  "byte \<Rightarrow> BroadcasterToSubscriberWSMessageType \<Rightarrow> bytes \<Rightarrow> error + B2S_Message" where
  "parse_b2s_message flags type payload =
     (case type of
        CONFIRM_SUBSCRIBE_EXACT \<Rightarrow>
          map_sum id ConfirmSubscribeExact (B2S_ConfirmSubscribeExactParser_parse flags type payload)
      | CONFIRM_SUBSCRIBE_GLOB \<Rightarrow>
          map_sum id ConfirmSubscribeGlob (B2S_ConfirmSubscribeGlobParser_parse flags type payload)
      | CONFIRM_UNSUBSCRIBE_EXACT \<Rightarrow>
          map_sum id ConfirmUnsubscribeExact
            (B2S_ConfirmUnsubscribeExactParser_parse flags type payload)
      | CONFIRM_UNSUBSCRIBE_GLOB \<Rightarrow>
          map_sum id ConfirmUnsubscribeGlob
            (B2S_ConfirmUnsubscribeGlobParser_parse flags type payload)
      | CONFIRM_NOTIFY \<Rightarrow>
          map_sum id ConfirmNotify (B2S_ConfirmNotifyParser_parse flags type payload)
      | CONTINUE_NOTIFY \<Rightarrow>
          map_sum id ContinueNotify (B2S_ContinueNotifyParser_parse flags type payload)
      | _ \<Rightarrow> Inl UnknownMessageType)"

text \<open>
  Modelled from the spec: reading a whole frame (section 6): the flags byte, the type
  byte, and the rest for the parser of that type. A frame shorter than two bytes is a size
  violation.
\<close>

definition parse_b2s_frame :: "bytes \<Rightarrow> error + B2S_Message" where
  "parse_b2s_frame frame =
     (case frame of
        flags # code # payload \<Rightarrow>
          (case b2s_type_of_code code of
             None \<Rightarrow> Inl UnknownMessageType
           | Some type \<Rightarrow> parse_b2s_message flags type payload)
      | _ \<Rightarrow> Inl MalformedHeader)"

text \<open>
  Modelled from the spec: \<open>serialize_message(message, minimal_headers)\<close> (section 4.4)
  selects the serializer by the variant of the message.
\<close>

fun serialize_b2s_message :: "B2S_Message \<Rightarrow> bool \<Rightarrow> error + bytes" where
  "serialize_b2s_message (ConfirmSubscribeExact m) minimal_headers =
     serialize_b2s_confirm_subscribe_exact m minimal_headers"
| "serialize_b2s_message (ConfirmSubscribeGlob m) minimal_headers =
     serialize_b2s_confirm_subscribe_glob m minimal_headers"
| "serialize_b2s_message (ConfirmUnsubscribeExact m) minimal_headers =
     serialize_b2s_confirm_unsubscribe_exact m minimal_headers"
| "serialize_b2s_message (ConfirmUnsubscribeGlob m) minimal_headers =
     serialize_b2s_confirm_unsubscribe_glob m minimal_headers"
| "serialize_b2s_message (ConfirmNotify m) minimal_headers =
     serialize_b2s_confirm_notify m minimal_headers"
| "serialize_b2s_message (ContinueNotify m) minimal_headers =
     serialize_b2s_continue_notify m minimal_headers"

text \<open>
  The valid messages of the round-trip law: the discriminator is the one of the
  kind, the identifier has at most 64 bytes, the counts are below \<open>2^64\<close>, the glob is a
  string of Unicode scalar values (the strings that have a UTF-8 form), and every header
  value has at most 65535 bytes.
\<close>

definition scalar_value :: "nat \<Rightarrow> bool" where
  "scalar_value c = (c < 0x110000 \<and> \<not> (0xD800 \<le> c \<and> c \<le> 0xDFFF))"

text \<open>The validity of a message, kind by kind.\<close>

fun valid_message :: "B2S_Message \<Rightarrow> bool" where
  "valid_message (ConfirmSubscribeExact (B2S_ConfirmSubscribeExact type topic)) =
     (type = CONFIRM_SUBSCRIBE_EXACT \<and> length topic \<le> 65535)"
| "valid_message (ConfirmSubscribeGlob (B2S_ConfirmSubscribeGlob type glob)) =
     (type = CONFIRM_SUBSCRIBE_GLOB \<and> list_all scalar_value glob
      \<and> (case utf8_encode glob of None \<Rightarrow> False | Some bs \<Rightarrow> length bs \<le> 65535))"
| "valid_message (ConfirmUnsubscribeExact (B2S_ConfirmUnsubscribeExact type topic)) =
     (type = CONFIRM_UNSUBSCRIBE_EXACT \<and> length topic \<le> 65535)"
| "valid_message (ConfirmUnsubscribeGlob (B2S_ConfirmUnsubscribeGlob type glob)) =
     (type = CONFIRM_UNSUBSCRIBE_GLOB \<and> list_all scalar_value glob
      \<and> (case utf8_encode glob of None \<Rightarrow> False | Some bs \<Rightarrow> length bs \<le> 65535))"
| "valid_message (ConfirmNotify (B2S_ConfirmNotify type identifier subscribers)) =
     (type = CONFIRM_NOTIFY \<and> length identifier \<le> 64 \<and> subscribers < 2 ^ 64)"
| "valid_message (ContinueNotify (B2S_ContinueNotify type identifier part_id)) =
     (type = CONTINUE_NOTIFY \<and> length identifier \<le> 64 \<and> part_id < 2 ^ 64)"

section \<open>Connection nonce and authorization tokens\<close>

text \<open>
  Modelled from the spec: the authorization scheme has no implementation among the source
  files; it is described by the docstring of \<open>CONFIRM_CONFIGURE\<close> (\<open>constants.py\<close>, lines
  194 to 213) and by sections 3, 4.3 and 4.6 of the specification. The state of section
  3: both contributions, the derived nonce and both counters. The counters are signed
  8-byte integers in the protocol; they are unbounded here, no claim reaches their range.
\<close>

record ConnectionNonceState =
  subscriber_nonce :: bytes
  broadcaster_nonce :: bytes
  connection_nonce :: bytes
  subscriber_counter :: int
  broadcaster_counter :: int

text \<open>
  Modelled from the spec: the connection nonce is
  \<open>SHA256(subscriber_nonce CONCAT broadcaster_nonce)\<close>. SHA-256 is a standard primitive
  that the protocol does not implement (section 6), so the hash function is a parameter.
\<close>

definition derive_connection_nonce :: "(bytes \<Rightarrow> bytes) \<Rightarrow> bytes \<Rightarrow> bytes \<Rightarrow> bytes" where
  "derive_connection_nonce sha256 sub_nonce brd_nonce = sha256 (sub_nonce @ brd_nonce)"

text \<open>
  Modelled from the spec: the state once both contributions are known. The subscriber
  counter starts at -1 and the broadcaster counter at 1.
\<close>

definition on_confirm_configure ::
  "(bytes \<Rightarrow> bytes) \<Rightarrow> bytes \<Rightarrow> bytes \<Rightarrow> ConnectionNonceState" where
  "on_confirm_configure sha256 sub_nonce brd_nonce =
     \<lparr>subscriber_nonce = sub_nonce, broadcaster_nonce = brd_nonce,
      connection_nonce = derive_connection_nonce sha256 sub_nonce brd_nonce,
      subscriber_counter = - 1, broadcaster_counter = 1\<rparr>"

text \<open>
  Modelled from the spec: the counter of a token "is hex encoded without a leading 0x and
  unpadded" (\<open>constants.py\<close>, lines 208 to 210): lower-case digits, most significant
  first, a single 0 for zero.
\<close>

definition hex_digit :: "nat \<Rightarrow> char" where
  "hex_digit d = ''0123456789abcdef'' ! d"

text \<open>
  Modelled from the spec: the hexadecimal numeral of a natural number, unpadded.
\<close>

fun hex :: "nat \<Rightarrow> string" where
  "hex n = (if n < 16 then [hex_digit n] else hex (n div 16) @ [hex_digit (n mod 16)])"

declare hex.simps [simp del]

text \<open>
  Modelled from the spec: the value of a hexadecimal digit (\<open>0\<close> to \<open>9\<close> are the
  characters 48 to 57, \<open>a\<close> to \<open>f\<close> the characters 97 to 102).
\<close>

definition hex_digit_value :: "char \<Rightarrow> nat" where
  "hex_digit_value c =
     (if (of_char c :: nat) \<le> 57 then of_char c - 48 else of_char c - 87)"

text \<open>
  Modelled from the spec: the number a hexadecimal numeral stands for, as the verifier of
  a token reads it.
\<close>

definition hex_value :: "string \<Rightarrow> nat" where
  "hex_value s = foldl (\<lambda>acc c. acc * 16 + hex_digit_value c) 0 s"

text \<open>
  Modelled from the spec: the sign is kept as a leading minus (the docstring's example is
  \<open>websocket:abc123:-1a\<close>).
\<close>

definition format_counter :: "int \<Rightarrow> string" where
  "format_counter ctr = (if ctr < 0 then CHR ''-'' # hex (nat (- ctr)) else hex (nat ctr))"

text \<open>
  Modelled from the spec: the token \<open>websocket:<nonce>:<ctr>\<close> with the nonce base64url
  encoded. The base64url encoder is a standard primitive and a parameter.
\<close>

definition authorization_token :: "(bytes \<Rightarrow> string) \<Rightarrow> bytes \<Rightarrow> int \<Rightarrow> string" where
  "authorization_token base64url nonce ctr =
     ''websocket:'' @ base64url nonce @ '':'' @ format_counter ctr"






section \<open>The minimal-integer codec\<close>

lemma unat_byte_of_nat: "n < 256 \<Longrightarrow> unat (of_nat n :: byte) = n"
  by (simp add: unat_of_nat)

lemma unat_byte_lt: "unat (b :: byte) < 256"
  using unsigned_less [of b, where ?'a = nat] by simp

lemma int_from_bytes_big_Nil: "int_from_bytes_big [] = 0"
  by (simp add: int_from_bytes_big_def)

lemma int_from_bytes_big_snoc:
  "int_from_bytes_big (bs @ [b]) = int_from_bytes_big bs * 256 + unat b"
  by (simp add: int_from_bytes_big_def)

lemma int_from_bytes_big_lt: "int_from_bytes_big bs < 256 ^ length bs"
proof (induction bs rule: rev_induct)
  case Nil
  then show ?case by (simp add: int_from_bytes_big_Nil)
next
  case (snoc b bs)
  have "unat b < 256" by (rule unat_byte_lt)
  with snoc show ?case by (simp add: int_from_bytes_big_snoc)
qed

lemma int_from_bytes_big_to_minimal: "int_from_bytes_big (int_to_minimal_unsigned n) = n"
proof (induction n rule: int_to_minimal_unsigned.induct)
  case (1 n)
  show ?case
  proof (cases "n < 256")
    case True
    then show ?thesis
      by (simp add: int_to_minimal_unsigned.simps [of n] int_from_bytes_big_def unat_byte_of_nat)
  next
    case False
    have "n mod 256 < 256" by simp
    then have "unat (of_nat (n mod 256) :: byte) = n mod 256" by (rule unat_byte_of_nat)
    with False 1 show ?thesis
      by (simp add: int_to_minimal_unsigned.simps [of n] int_from_bytes_big_snoc)
  qed
qed

lemma int_to_minimal_unsigned_nonempty: "int_to_minimal_unsigned n \<noteq> []"
  by (subst int_to_minimal_unsigned.simps) simp

lemma length_int_to_minimal_unsigned_le:
  "n < 256 ^ k \<Longrightarrow> 0 < k \<Longrightarrow> length (int_to_minimal_unsigned n) \<le> k"
proof (induction n arbitrary: k rule: int_to_minimal_unsigned.induct)
  case (1 n)
  show ?case
  proof (cases "n < 256")
    case True
    with 1(3) show ?thesis by (simp add: int_to_minimal_unsigned.simps [of n])
  next
    case False
    from 1(3) obtain j where k: "k = Suc j" by (cases k) auto
    from False 1(2) k have j: "0 < j" by (cases j) auto
    from 1(2) k have "n div 256 < 256 ^ j"
      by (simp add: less_mult_imp_div_less mult.commute)
    with 1(1) [OF False _ j] have "length (int_to_minimal_unsigned (n div 256)) \<le> j" by simp
    with False k show ?thesis by (simp add: int_to_minimal_unsigned.simps [of n])
  qed
qed

lemma hd_int_to_minimal_unsigned: "n \<noteq> 0 \<Longrightarrow> hd (int_to_minimal_unsigned n) \<noteq> 0"
proof (induction n rule: int_to_minimal_unsigned.induct)
  case (1 n)
  show ?case
  proof (cases "n < 256")
    case True
    then have "unat (of_nat n :: byte) = n" by (rule unat_byte_of_nat)
    with 1(2) have "(of_nat n :: byte) \<noteq> 0" by auto
    with True show ?thesis by (simp add: int_to_minimal_unsigned.simps [of n])
  next
    case False
    then have "n div 256 \<noteq> 0" by simp
    with 1(1) [OF False] have "hd (int_to_minimal_unsigned (n div 256)) \<noteq> 0" by simp
    with False show ?thesis
      by (simp add: int_to_minimal_unsigned.simps [of n] int_to_minimal_unsigned_nonempty)
  qed
qed

lemma int_to_minimal_unsigned_fewest:
  assumes "int_from_bytes_big bs = n" and "bs \<noteq> []"
  shows "length (int_to_minimal_unsigned n) \<le> length bs"
proof -
  have "n < 256 ^ length bs" using assms(1) int_from_bytes_big_lt [of bs] by simp
  moreover have "0 < length bs" using assms(2) by simp
  ultimately show ?thesis by (rule length_int_to_minimal_unsigned_le)
qed

lemma int_to_minimal_unsigned_0: "int_to_minimal_unsigned 0 = [0]"
  by (simp add: int_to_minimal_unsigned.simps [of 0])

lemma int_to_minimal_unsigned_256: "int_to_minimal_unsigned 256 = [1, 0]"
  by (simp add: int_to_minimal_unsigned.simps [of 256] int_to_minimal_unsigned.simps [of "Suc 0"])

text \<open>
  Claim C6. For every unsigned \<open>n\<close> below \<open>2^64\<close>, decoding the minimal encoding of \<open>n\<close>
  gives \<open>n\<close> back. The encoding of 0 is the single zero byte; every encoding has between
  1 and 8 bytes; the first byte of the encoding of a non-zero \<open>n\<close> is not zero (no
  redundant leading zero byte); and no non-empty byte string that decodes to \<open>n\<close> is
  shorter (the encoding is the fewest bytes).
\<close>

theorem int_to_minimal_unsigned_roundtrip_fewest:
  "n < 2 ^ 64 \<Longrightarrow>
     int_from_bytes_big (int_to_minimal_unsigned n) = n
   \<and> int_to_minimal_unsigned 0 = [0]
   \<and> 1 \<le> length (int_to_minimal_unsigned n) \<and> length (int_to_minimal_unsigned n) \<le> 8
   \<and> (n \<noteq> 0 \<longrightarrow> hd (int_to_minimal_unsigned n) \<noteq> 0)
   \<and> (\<forall>bs. int_from_bytes_big bs = n \<and> bs \<noteq> [] \<longrightarrow>
          length (int_to_minimal_unsigned n) \<le> length bs)"
proof -
  assume n: "n < 2 ^ 64"
  have "(2::nat) ^ 64 = 256 ^ 8" by simp
  with n have "n < 256 ^ 8" by simp
  then have le8: "length (int_to_minimal_unsigned n) \<le> 8"
    by (rule length_int_to_minimal_unsigned_le) simp
  have ge1: "1 \<le> length (int_to_minimal_unsigned n)"
    using int_to_minimal_unsigned_nonempty [of n] by (cases "int_to_minimal_unsigned n") auto
  show ?thesis
    using le8 ge1 int_from_bytes_big_to_minimal int_to_minimal_unsigned_0
      hd_int_to_minimal_unsigned int_to_minimal_unsigned_fewest by blast
qed

text \<open>The theorem at \<open>n = 256\<close>, against the padded form \<open>[0, 1, 0]\<close>.\<close>

theorem int_to_minimal_unsigned_roundtrip_fewest_witness:
  "(256::nat) < 2 ^ 64
   \<and> int_from_bytes_big (int_to_minimal_unsigned 256) = 256
   \<and> int_to_minimal_unsigned 256 = [1, 0]
   \<and> (256::nat) \<noteq> 0 \<and> hd (int_to_minimal_unsigned 256) \<noteq> 0
   \<and> int_from_bytes_big [0, 1, 0] = 256 \<and> [0, 1, 0 :: byte] \<noteq> []
   \<and> length (int_to_minimal_unsigned 256) \<le> length [0, 1, 0 :: byte]"
proof -
  have n: "(256::nat) < 2 ^ 64" by simp
  have b: "int_from_bytes_big [0, 1, 0] = 256" by (simp add: int_from_bytes_big_def)
  from int_to_minimal_unsigned_roundtrip_fewest [OF n] b int_to_minimal_unsigned_256
  show ?thesis by simp
qed

section \<open>The header codec round-trips\<close>

lemma bytes_name_name_bytes: "bytes_name (name_bytes s) = s"
  by (induction s) (simp_all add: bytes_name_def name_bytes_def unat_byte_of_nat)

lemma length_name_bytes: "length (name_bytes s) = length s"
  by (simp add: name_bytes_def)

lemma int_from_bytes_big_u16: "n \<le> 65535 \<Longrightarrow> int_from_bytes_big (u16_be n) = n"
proof -
  assume n: "n \<le> 65535"
  then have "n div 256 < 256" by simp
  then have "unat (of_nat (n div 256) :: byte) = n div 256" by (rule unat_byte_of_nat)
  moreover have "unat (of_nat (n mod 256) :: byte) = n mod 256"
    by (rule unat_byte_of_nat) simp
  ultimately show ?thesis by (simp add: int_from_bytes_big_def u16_be_def)
qed

lemma read_length_prefixed_encoded:
  "length v \<le> 65535 \<Longrightarrow> read_length_prefixed (u16_be (length v) @ v @ rest) = Inr (v, rest)"
proof -
  assume "length v \<le> 65535"
  then have "int_from_bytes_big (u16_be (length v)) = length v" by (rule int_from_bytes_big_u16)
  moreover have "length (u16_be (length v)) = 2" by (simp add: u16_be_def)
  ultimately show ?thesis by (simp add: read_length_prefixed_def read_exact_def)
qed

lemma read_exact_length: "read_exact n buf = Inr (x, rest) \<Longrightarrow> length x = n"
  by (auto simp: read_exact_def split: if_splits)

lemma read_length_prefixed_length:
  "read_length_prefixed buf = Inr (v, rest) \<Longrightarrow> length v \<le> 65535"
proof -
  assume a: "read_length_prefixed buf = Inr (v, rest)"
  then obtain lb r where lb: "read_exact 2 buf = Inr (lb, r)"
    and v: "read_exact (int_from_bytes_big lb) r = Inr (v, rest)"
    by (auto simp: read_length_prefixed_def split: sum.splits)
  from lb have "length lb = 2" by (rule read_exact_length)
  with int_from_bytes_big_lt [of lb] have "int_from_bytes_big lb < 65536" by simp
  moreover from v have "length v = int_from_bytes_big lb" by (rule read_exact_length)
  ultimately show ?thesis by simp
qed

lemma serialize_simple_headers_error:
  "serialize_simple_headers names vals minimal = Inl e \<Longrightarrow> e = MalformedHeader"
proof (induction names arbitrary: vals)
  case Nil
  then show ?case by (cases vals) simp_all
next
  case (Cons n ns)
  show ?case
  proof (cases vals)
    case Nil
    with Cons.prems show ?thesis by simp
  next
    case (Cons v vs)
    with Cons.prems Cons.IH [of vs] show ?thesis
      by (simp split: if_splits sum.splits)
  qed
qed

lemma serialize_simple_headers_too_long:
  "(\<exists>n \<in> set names. 65535 < length n) \<or> (\<exists>v \<in> set vals. 65535 < length v) \<Longrightarrow>
   serialize_simple_headers names vals minimal = Inl MalformedHeader"
proof (induction names arbitrary: vals)
  case Nil
  then show ?case by (cases vals) simp_all
next
  case (Cons n ns)
  show ?case
  proof (cases vals)
    case Nil
    then show ?thesis by simp
  next
    case vals: (Cons v vs)
    show ?thesis
    proof (cases "65535 < length n \<or> 65535 < length v")
      case True
      with vals show ?thesis by simp
    next
      case False
      with Cons.prems vals
      have "(\<exists>n \<in> set ns. 65535 < length n) \<or> (\<exists>v \<in> set vs. 65535 < length v)" by auto
      then have "serialize_simple_headers ns vs minimal = Inl MalformedHeader" by (rule Cons.IH)
      with False vals show ?thesis by simp
    qed
  qed
qed

lemma serialize_simple_headers_ok:
  "length names = length vals \<Longrightarrow>
   \<forall>n \<in> set names. length n \<le> 65535 \<Longrightarrow> \<forall>v \<in> set vals. length v \<le> 65535 \<Longrightarrow>
   \<exists>bs. serialize_simple_headers names vals minimal = Inr bs"
proof (induction names arbitrary: vals)
  case Nil
  then show ?case by simp
next
  case (Cons n ns)
  from Cons.prems(1) obtain v vs where vals: "vals = v # vs" by (cases vals) auto
  with Cons.prems have "length ns = length vs" "\<forall>n \<in> set ns. length n \<le> 65535"
    "\<forall>v \<in> set vs. length v \<le> 65535" by auto
  then obtain bs where "serialize_simple_headers ns vs minimal = Inr bs"
    using Cons.IH by blast
  moreover from Cons.prems vals have "\<not> (65535 < length n \<or> 65535 < length v)" by auto
  ultimately show ?case using vals by simp
qed

lemma parse_serialized_header:
  assumes "length n \<le> 65535" and "length v \<le> 65535"
  shows "parse_headers_loop minimal (n # ns) (serialize_header n v minimal @ rest) acc =
         parse_headers_loop minimal ns rest (acc(n \<mapsto> v))"
proof -
  have nb: "length (name_bytes n) \<le> 65535" using assms(1) by (simp add: length_name_bytes)
  have rn: "\<And>r. read_length_prefixed (u16_be (length n) @ name_bytes n @ r) = Inr (name_bytes n, r)"
    using read_length_prefixed_encoded [OF nb] by (simp add: length_name_bytes)
  note rv = read_length_prefixed_encoded [OF assms(2)]
  show ?thesis
    using assms(1) rn rv by (cases minimal) (simp_all add: serialize_header_def bytes_name_name_bytes)
qed

lemma parse_serialized_headers:
  "serialize_simple_headers names vals minimal = Inr bs \<Longrightarrow>
   parse_headers_loop minimal names (bs @ rest) acc =
     Inr (acc(names [\<mapsto>] vals), rest)"
proof (induction names arbitrary: vals bs acc)
  case Nil
  then show ?case by (cases vals) simp_all
next
  case (Cons n ns)
  from Cons.prems obtain v vs where vals: "vals = v # vs" by (cases vals) auto
  from Cons.prems vals have n: "length n \<le> 65535" and v: "length v \<le> 65535"
    by (auto split: if_splits)
  with Cons.prems vals obtain bs' where bs': "serialize_simple_headers ns vs minimal = Inr bs'"
    and bs: "bs = serialize_header n v minimal @ bs'"
    by (auto split: if_splits sum.splits)
  have "parse_headers_loop minimal (n # ns) (bs @ rest) acc =
        parse_headers_loop minimal ns (bs' @ rest) (acc(n \<mapsto> v))"
    using parse_serialized_header [OF n v, of minimal ns "bs' @ rest" acc] bs by simp
  also have "\<dots> = Inr ((acc(n \<mapsto> v))(ns [\<mapsto>] vs), rest)"
    by (rule Cons.IH [OF bs'])
  also have "(acc(n \<mapsto> v))(ns [\<mapsto>] vs) = acc(n # ns [\<mapsto>] v # vs)"
    by (simp only: map_upds_Cons)
  finally show ?case unfolding vals .
qed

lemma parse_headers_loop_name_too_long:
  "65535 < length n \<Longrightarrow> parse_headers_loop minimal (n # ns) buf acc = Inl MalformedHeader"
  by simp

lemma parse_headers_loop_values_bounded:
  "parse_headers_loop minimal names buf acc = Inr (h, rest) \<Longrightarrow>
   \<forall>k v. acc k = Some v \<longrightarrow> length v \<le> 65535 \<Longrightarrow>
   h k = Some v \<Longrightarrow> length v \<le> 65535"
proof (induction names arbitrary: buf acc)
  case Nil
  then show ?case by simp
next
  case (Cons n ns)
  show ?case
  proof (cases minimal)
    case True
    with Cons.prems(1) obtain x r where x: "read_length_prefixed buf = Inr (x, r)"
      and loop: "parse_headers_loop minimal ns r (acc(n \<mapsto> x)) = Inr (h, rest)"
      by (auto split: if_splits sum.splits)
    from x have "length x \<le> 65535" by (rule read_length_prefixed_length)
    with Cons.prems(2) have "\<forall>k v. (acc(n \<mapsto> x)) k = Some v \<longrightarrow> length v \<le> 65535" by auto
    from Cons.IH [OF loop this Cons.prems(3)] show ?thesis .
  next
    case False
    with Cons.prems(1) obtain nb r x r' where "read_length_prefixed buf = Inr (nb, r)"
      and x: "read_length_prefixed r = Inr (x, r')"
      and loop: "parse_headers_loop minimal ns r' (acc(bytes_name nb \<mapsto> x)) = Inr (h, rest)"
      by (auto split: if_splits sum.splits)
    from x have "length x \<le> 65535" by (rule read_length_prefixed_length)
    with Cons.prems(2)
    have "\<forall>k v. (acc(bytes_name nb \<mapsto> x)) k = Some v \<longrightarrow> length v \<le> 65535" by auto
    from Cons.IH [OF loop this Cons.prems(3)] show ?thesis .
  qed
qed

section \<open>UTF-8: decoding inverts encoding, and encoding inverts decoding\<close>

lemma recombine3: "c div 4096 * 4096 + c div 64 mod 64 * 64 + c mod 64 = (c::nat)"
proof -
  have "c mod (64 * 64) = 64 * (c div 64 mod 64) + c mod 64" by (rule mod_mult2_eq)
  then have "c mod 4096 = c div 64 mod 64 * 64 + c mod 64" by simp
  moreover have "c = c div 4096 * 4096 + c mod 4096" by simp
  ultimately show ?thesis by linarith
qed

lemma recombine4:
  "c div 262144 * 262144 + c div 4096 mod 64 * 4096 + c div 64 mod 64 * 64 + c mod 64 = (c::nat)"
proof -
  have "c mod (4096 * 64) = 4096 * (c div 4096 mod 64) + c mod 4096" by (rule mod_mult2_eq)
  then have "c mod 262144 = c div 4096 mod 64 * 4096 + c mod 4096" by simp
  moreover have "c mod (64 * 64) = 64 * (c div 64 mod 64) + c mod 64" by (rule mod_mult2_eq)
  then have "c mod 4096 = c div 64 mod 64 * 64 + c mod 64" by simp
  moreover have "c = c div 262144 * 262144 + c mod 262144" by simp
  ultimately show ?thesis by linarith
qed

lemma digits2: "y < 64 \<Longrightarrow> (x * 64 + y) div 64 = x \<and> (x * 64 + y) mod 64 = (y::nat)"
  by simp

lemma digits3:
  fixes x y z :: nat
  assumes "y < 64" and "z < 64"
  defines "c \<equiv> x * 4096 + y * 64 + z"
  shows "c div 4096 = x \<and> c div 64 mod 64 = y \<and> c mod 64 = z"
proof -
  have c: "c = (x * 64 + y) * 64 + z" by (simp add: c_def)
  have d: "c div 64 = x * 64 + y" and m: "c mod 64 = z"
    using digits2 [OF assms(2), of "x * 64 + y"] unfolding c by blast+
  have "c div (64 * 64) = c div 64 div 64" by (rule div_mult2_eq)
  then have "c div 4096 = x" using assms(1) by (simp add: d)
  moreover have "c div 64 mod 64 = y" using assms(1) by (simp add: d)
  ultimately show ?thesis using m by simp
qed

lemma digits4:
  fixes w x y z :: nat
  assumes "x < 64" and "y < 64" and "z < 64"
  defines "c \<equiv> w * 262144 + x * 4096 + y * 64 + z"
  shows "c div 262144 = w \<and> c div 4096 mod 64 = x \<and> c div 64 mod 64 = y \<and> c mod 64 = z"
proof -
  have c: "c = (w * 4096 + x * 64 + y) * 64 + z" by (simp add: c_def)
  have d: "c div 64 = w * 4096 + x * 64 + y" and m: "c mod 64 = z"
    using digits2 [OF assms(3), of "w * 4096 + x * 64 + y"] unfolding c by blast+
  from digits3 [OF assms(1,2), of w]
  have e: "(w * 4096 + x * 64 + y) div 4096 = w" "(w * 4096 + x * 64 + y) div 64 mod 64 = x"
    "(w * 4096 + x * 64 + y) mod 64 = y" by simp_all
  have "c div (64 * 4096) = c div 64 div 4096" by (rule div_mult2_eq)
  then have "c div 262144 = w" by (simp add: d e)
  moreover have "c div (64 * 64) = c div 64 div 64" by (rule div_mult2_eq)
  then have "c div 4096 mod 64 = x" by (simp add: d e)
  moreover have "c div 64 mod 64 = y" by (simp add: d e)
  ultimately show ?thesis using m by simp
qed

lemma utf8_decode_1:
  "b0 < 0x80 \<Longrightarrow> utf8_decode (b0 # r) = map_option ((#) b0) (utf8_decode r)"
  by simp

lemma utf8_decode_2:
  assumes "0xC0 \<le> b0" and "b0 < 0xE0" and "is_continuation b1"
    and "0x80 \<le> (b0 - 0xC0) * 64 + (b1 - 0x80)"
  shows "utf8_decode (b0 # b1 # r) =
         map_option ((#) ((b0 - 0xC0) * 64 + (b1 - 0x80))) (utf8_decode r)"
  using assms by (simp add: Let_def)

lemma utf8_decode_3:
  assumes "0xE0 \<le> b0" and "b0 < 0xF0" and "is_continuation b1" and "is_continuation b2"
    and "0x800 \<le> (b0 - 0xE0) * 4096 + (b1 - 0x80) * 64 + (b2 - 0x80)"
    and "\<not> (0xD800 \<le> (b0 - 0xE0) * 4096 + (b1 - 0x80) * 64 + (b2 - 0x80)
            \<and> (b0 - 0xE0) * 4096 + (b1 - 0x80) * 64 + (b2 - 0x80) \<le> 0xDFFF)"
  shows "utf8_decode (b0 # b1 # b2 # r) =
         map_option ((#) ((b0 - 0xE0) * 4096 + (b1 - 0x80) * 64 + (b2 - 0x80))) (utf8_decode r)"
  using assms by (simp add: Let_def)

lemma utf8_decode_4:
  assumes "0xF0 \<le> b0" and "b0 < 0xF8"
    and "is_continuation b1" and "is_continuation b2" and "is_continuation b3"
    and "0x10000 \<le> (b0 - 0xF0) * 262144 + (b1 - 0x80) * 4096 + (b2 - 0x80) * 64 + (b3 - 0x80)"
    and "(b0 - 0xF0) * 262144 + (b1 - 0x80) * 4096 + (b2 - 0x80) * 64 + (b3 - 0x80) < 0x110000"
  shows "utf8_decode (b0 # b1 # b2 # b3 # r) =
         map_option ((#) ((b0 - 0xF0) * 262144 + (b1 - 0x80) * 4096 + (b2 - 0x80) * 64 + (b3 - 0x80)))
           (utf8_decode r)"
  using assms by (simp add: Let_def)

lemma utf8_decode_encode_char:
  "utf8_encode_char c = Some bs \<Longrightarrow> utf8_decode (bs @ rest) = map_option ((#) c) (utf8_decode rest)"
  unfolding utf8_encode_char_def
  by (auto simp: is_continuation_def Let_def recombine3 recombine4 split: if_splits)

lemma utf8_encode_char_bytes: "utf8_encode_char c = Some bs \<Longrightarrow> b \<in> set bs \<Longrightarrow> b < 256"
  unfolding utf8_encode_char_def
  by (auto split: if_splits)

lemma utf8_decode_encode: "utf8_encode s = Some bs \<Longrightarrow> utf8_decode bs = Some s"
proof (induction s arbitrary: bs)
  case Nil
  then show ?case by simp
next
  case (Cons c cs)
  from Cons.prems obtain b r where b: "utf8_encode_char c = Some b"
    and r: "utf8_encode cs = Some r" and bs: "bs = b @ r"
    by (auto split: option.splits)
  from Cons.IH [OF r] utf8_decode_encode_char [OF b, of r] bs show ?case by simp
qed

lemma utf8_encode_bytes: "utf8_encode s = Some bs \<Longrightarrow> b \<in> set bs \<Longrightarrow> b < 256"
proof (induction s arbitrary: bs)
  case Nil
  then show ?case by simp
next
  case (Cons c cs)
  from Cons.prems(1) obtain x r where x: "utf8_encode_char c = Some x"
    and r: "utf8_encode cs = Some r" and bs: "bs = x @ r"
    by (auto split: option.splits)
  from Cons.prems(2) bs have "b \<in> set x \<or> b \<in> set r" by simp
  then show ?case using utf8_encode_char_bytes [OF x] Cons.IH [OF r] by blast
qed

lemma utf8_encode_char_2:
  assumes "0xC0 \<le> b0" and "b0 < 0xE0" and "is_continuation b1"
    and "0x80 \<le> (b0 - 0xC0) * 64 + (b1 - 0x80)"
  shows "utf8_encode_char ((b0 - 0xC0) * 64 + (b1 - 0x80)) = Some [b0, b1]"
proof -
  define x y where "x = b0 - 0xC0" and "y = b1 - 0x80"
  have y: "y < 64" and x: "x < 32"
    using assms(1-3) by (auto simp: x_def y_def is_continuation_def)
  have b: "b0 = 0xC0 + x" "b1 = 0x80 + y"
    using assms(1-3) by (auto simp: x_def y_def is_continuation_def)
  have lt: "x * 64 + y < 0x800" using x y by simp
  show ?thesis
    using assms(4) lt digits2 [OF y, of x] unfolding x_def [symmetric] y_def [symmetric]
    by (simp add: utf8_encode_char_def b)
qed

lemma utf8_encode_char_3:
  assumes "0xE0 \<le> b0" and "b0 < 0xF0" and "is_continuation b1" and "is_continuation b2"
    and "0x800 \<le> (b0 - 0xE0) * 4096 + (b1 - 0x80) * 64 + (b2 - 0x80)"
    and "\<not> (0xD800 \<le> (b0 - 0xE0) * 4096 + (b1 - 0x80) * 64 + (b2 - 0x80)
            \<and> (b0 - 0xE0) * 4096 + (b1 - 0x80) * 64 + (b2 - 0x80) \<le> 0xDFFF)"
  shows "utf8_encode_char ((b0 - 0xE0) * 4096 + (b1 - 0x80) * 64 + (b2 - 0x80)) = Some [b0, b1, b2]"
proof -
  define x y z where "x = b0 - 0xE0" and "y = b1 - 0x80" and "z = b2 - 0x80"
  have y: "y < 64" and z: "z < 64" and x: "x < 16"
    using assms(1-4) by (auto simp: x_def y_def z_def is_continuation_def)
  have b: "b0 = 0xE0 + x" "b1 = 0x80 + y" "b2 = 0x80 + z"
    using assms(1-4) by (auto simp: x_def y_def z_def is_continuation_def)
  have lt: "x * 4096 + y * 64 + z < 0x10000" using x y z by simp
  show ?thesis
    using assms(5,6) lt digits3 [OF y z, of x]
    unfolding x_def [symmetric] y_def [symmetric] z_def [symmetric]
    by (simp add: utf8_encode_char_def b)
qed

lemma utf8_encode_char_4:
  assumes "0xF0 \<le> b0" and "b0 < 0xF8"
    and "is_continuation b1" and "is_continuation b2" and "is_continuation b3"
    and "0x10000 \<le> (b0 - 0xF0) * 262144 + (b1 - 0x80) * 4096 + (b2 - 0x80) * 64 + (b3 - 0x80)"
    and "(b0 - 0xF0) * 262144 + (b1 - 0x80) * 4096 + (b2 - 0x80) * 64 + (b3 - 0x80) < 0x110000"
  shows "utf8_encode_char ((b0 - 0xF0) * 262144 + (b1 - 0x80) * 4096 + (b2 - 0x80) * 64 + (b3 - 0x80))
         = Some [b0, b1, b2, b3]"
proof -
  define w x y z where "w = b0 - 0xF0" and "x = b1 - 0x80" and "y = b2 - 0x80" and "z = b3 - 0x80"
  have x: "x < 64" and y: "y < 64" and z: "z < 64"
    using assms(1-5) by (auto simp: x_def y_def z_def is_continuation_def)
  have b: "b0 = 0xF0 + w" "b1 = 0x80 + x" "b2 = 0x80 + y" "b3 = 0x80 + z"
    using assms(1-5) by (auto simp: w_def x_def y_def z_def is_continuation_def)
  show ?thesis
    using assms(6,7) digits4 [OF x y z, of w]
    unfolding w_def [symmetric] x_def [symmetric] y_def [symmetric] z_def [symmetric]
    by (simp add: utf8_encode_char_def b)
qed

lemma utf8_encode_decode: "utf8_decode bs = Some s \<Longrightarrow> utf8_encode s = Some bs"
proof (induction bs arbitrary: s rule: length_induct)
  case (1 bs)
  note IH = "1.IH" [rule_format]
  show ?case
  proof (cases bs)
    case Nil
    with "1.prems" show ?thesis by simp
  next
    case (Cons b0 r0)
    consider (one) "b0 < 0x80" | (stray) "0x80 \<le> b0" "b0 < 0xC0" | (two) "0xC0 \<le> b0" "b0 < 0xE0"
      | (three) "0xE0 \<le> b0" "b0 < 0xF0" | (four) "0xF0 \<le> b0" "b0 < 0xF8" | (bad) "0xF8 \<le> b0"
      by linarith
    then show ?thesis
    proof cases
      case one
      with "1.prems" Cons obtain s' where s: "s = b0 # s'" and r: "utf8_decode r0 = Some s'"
        by auto
      from IH [OF _ r] Cons have "utf8_encode s' = Some r0" by simp
      with one s Cons show ?thesis by (simp add: utf8_encode_char_def)
    next
      case stray
      with "1.prems" Cons show ?thesis by simp
    next
      case two
      with "1.prems" Cons obtain b1 r s' where r0: "r0 = b1 # r" and c1: "is_continuation b1"
        and c: "0x80 \<le> (b0 - 0xC0) * 64 + (b1 - 0x80)"
        and s: "s = ((b0 - 0xC0) * 64 + (b1 - 0x80)) # s'" and r: "utf8_decode r = Some s'"
        by (auto simp: Let_def split: list.splits if_splits)
      from IH [OF _ r] Cons r0 have "utf8_encode s' = Some r" by simp
      with utf8_encode_char_2 [OF two c1 c] s Cons r0 show ?thesis by simp
    next
      case three
      with "1.prems" Cons obtain b1 b2 r s' where r0: "r0 = b1 # b2 # r"
        and c1: "is_continuation b1" and c2: "is_continuation b2"
        and c: "0x800 \<le> (b0 - 0xE0) * 4096 + (b1 - 0x80) * 64 + (b2 - 0x80)"
        and ns: "\<not> (0xD800 \<le> (b0 - 0xE0) * 4096 + (b1 - 0x80) * 64 + (b2 - 0x80)
            \<and> (b0 - 0xE0) * 4096 + (b1 - 0x80) * 64 + (b2 - 0x80) \<le> 0xDFFF)"
        and s: "s = ((b0 - 0xE0) * 4096 + (b1 - 0x80) * 64 + (b2 - 0x80)) # s'"
        and r: "utf8_decode r = Some s'"
        by (auto simp: Let_def split: list.splits if_splits)
      from IH [OF _ r] Cons r0 have "utf8_encode s' = Some r" by simp
      with utf8_encode_char_3 [OF three c1 c2 c ns] s Cons r0 show ?thesis by simp
    next
      case four
      with "1.prems" Cons obtain b1 b2 b3 r s' where r0: "r0 = b1 # b2 # b3 # r"
        and c1: "is_continuation b1" and c2: "is_continuation b2" and c3: "is_continuation b3"
        and c: "0x10000 \<le> (b0 - 0xF0) * 262144 + (b1 - 0x80) * 4096 + (b2 - 0x80) * 64 + (b3 - 0x80)"
        and lt: "(b0 - 0xF0) * 262144 + (b1 - 0x80) * 4096 + (b2 - 0x80) * 64 + (b3 - 0x80) < 0x110000"
        and s: "s = ((b0 - 0xF0) * 262144 + (b1 - 0x80) * 4096 + (b2 - 0x80) * 64 + (b3 - 0x80)) # s'"
        and r: "utf8_decode r = Some s'"
        by (auto simp: Let_def split: list.splits if_splits)
      from IH [OF _ r] Cons r0 have "utf8_encode s' = Some r" by simp
      with utf8_encode_char_4 [OF four c1 c2 c3 c lt] s Cons r0 show ?thesis by simp
    next
      case bad
      with "1.prems" Cons show ?thesis by simp
    qed
  qed
qed

lemma map_unat_of_nat: "\<forall>b \<in> set bs. b < 256 \<Longrightarrow> map unat (map of_nat bs :: bytes) = bs"
  by (induction bs) (simp_all add: unat_byte_of_nat)

lemma map_of_nat_unat: "map of_nat (map unat (b :: bytes)) = b"
  by (induction b) simp_all

lemma bytes_decode_str_encode: "str_encode_utf8 s = Inr b \<Longrightarrow> bytes_decode_utf8 b = Inr s"
proof -
  assume "str_encode_utf8 s = Inr b"
  then obtain bs where bs: "utf8_encode s = Some bs" and b: "b = map of_nat bs"
    by (auto simp: str_encode_utf8_def split: option.splits)
  from bs have "\<forall>x \<in> set bs. x < 256" using utf8_encode_bytes by blast
  then have "map unat b = bs" unfolding b by (rule map_unat_of_nat)
  with utf8_decode_encode [OF bs] show ?thesis by (simp add: bytes_decode_utf8_def)
qed

lemma str_encode_bytes_decode: "bytes_decode_utf8 b = Inr s \<Longrightarrow> str_encode_utf8 s = Inr b"
proof -
  assume "bytes_decode_utf8 b = Inr s"
  then have "utf8_decode (map unat b) = Some s"
    by (auto simp: bytes_decode_utf8_def split: option.splits)
  then have "utf8_encode s = Some (map unat b)" by (rule utf8_encode_decode)
  then show ?thesis
    using map_of_nat_unat [of b] by (simp add: str_encode_utf8_def del: map_map)
qed

lemma utf8_encode_char_scalar: "(utf8_encode_char c \<noteq> None) = scalar_value c"
  by (auto simp: utf8_encode_char_def scalar_value_def)

lemma utf8_encode_scalar: "(utf8_encode s \<noteq> None) = list_all scalar_value s"
proof (induction s)
  case Nil
  then show ?case by simp
next
  case (Cons c cs)
  show ?case
  proof (cases "utf8_encode_char c")
    case None
    with utf8_encode_char_scalar [of c] show ?thesis by simp
  next
    case (Some x)
    with utf8_encode_char_scalar [of c] Cons show ?thesis by (cases "utf8_encode cs") simp_all
  qed
qed

section \<open>Frames\<close>

lemma minimal_flag: "((if minimal then MINIMAL_HEADERS else 0) AND MINIMAL_HEADERS \<noteq> 0) = minimal"
  by (simp add: MINIMAL_HEADERS_def)

lemma b2s_type_of_code_value: "b2s_type_of_code (of_nat (b2s_type_value t)) = Some t"
  by (cases t) (simp_all add: b2s_type_of_code_def)

lemma parse_serialized_message:
  assumes "serialize_simple_message t names vals [] minimal = Inr frame"
  shows "\<exists>flags hs. frame = flags # of_nat (b2s_type_value t) # hs
           \<and> parse_simple_headers flags hs names = Inr (Map.empty(names [\<mapsto>] vals), [])"
proof -
  from assms obtain hs where hs: "serialize_simple_headers names vals minimal = Inr hs"
    and frame: "frame = (if minimal then MINIMAL_HEADERS else 0) # of_nat (b2s_type_value t) # hs"
    by (auto simp: serialize_simple_message_def split: sum.splits)
  from parse_serialized_headers [OF hs, of "[]" Map.empty]
  have "parse_simple_headers (if minimal then MINIMAL_HEADERS else 0) hs names =
          Inr (Map.empty(names [\<mapsto>] vals), [])"
    unfolding parse_simple_headers_def minimal_flag by simp
  with frame show ?thesis by blast
qed

lemma parse_b2s_frame_Cons:
  "parse_b2s_frame (flags # of_nat (b2s_type_value t) # hs) = parse_b2s_message flags t hs"
  by (simp add: parse_b2s_frame_def b2s_type_of_code_value)

lemma serialize_simple_message_ok:
  "length names = length vals \<Longrightarrow>
   \<forall>n \<in> set names. length n \<le> 65535 \<Longrightarrow> \<forall>v \<in> set vals. length v \<le> 65535 \<Longrightarrow>
   \<exists>frame. serialize_simple_message t names vals payload minimal = Inr frame"
  using serialize_simple_headers_ok [of names vals minimal]
  by (auto simp: serialize_simple_message_def)

section \<open>What each parser makes of a decoded header section\<close>

lemma confirm_notify_parse_headers:
  assumes "parse_simple_headers flags payload confirm_notify_headers = Inr (h, rest)"
    and "h ''x-identifier'' = Some i" and "h ''x-subscribers'' = Some s"
  shows "B2S_ConfirmNotifyParser_parse flags CONFIRM_NOTIFY payload =
     (if 64 < length i then Inl (ValueError ''x-identifier must be at most 64 bytes'')
      else if 8 < length s then Inl (ValueError ''x-subscribers must be at most 8 bytes'')
      else Inr (B2S_ConfirmNotify CONFIRM_NOTIFY i (int_from_bytes_big s)))"
  using assms by (simp add: B2S_ConfirmNotifyParser_parse_def)

lemma continue_notify_parse_headers:
  assumes "parse_simple_headers flags payload continue_notify_headers = Inr (h, rest)"
    and "h ''x-identifier'' = Some i" and "h ''x-part-id'' = Some s"
  shows "B2S_ContinueNotifyParser_parse flags CONTINUE_NOTIFY payload =
     (if 64 < length i then Inl (ValueError ''x-identifier must be at most 64 bytes'')
      else if 8 < length s then Inl (ValueError ''x-part-id must be at most 8 bytes'')
      else Inr (B2S_ContinueNotify CONTINUE_NOTIFY i (int_from_bytes_big s)))"
  using assms by (simp add: B2S_ContinueNotifyParser_parse_def)

lemma confirm_subscribe_glob_parse_headers:
  assumes "parse_simple_headers flags payload confirm_subscribe_glob_headers = Inr (h, rest)"
    and "h ''x-glob'' = Some v"
  shows "B2S_ConfirmSubscribeGlobParser_parse flags CONFIRM_SUBSCRIBE_GLOB payload =
     (case bytes_decode_utf8 v of
        Inl e \<Rightarrow> Inl e
      | Inr glob \<Rightarrow> Inr (B2S_ConfirmSubscribeGlob CONFIRM_SUBSCRIBE_GLOB glob))"
  using assms by (simp add: B2S_ConfirmSubscribeGlobParser_parse_def)

lemma confirm_unsubscribe_glob_parse_headers:
  assumes "parse_simple_headers flags payload confirm_unsubscribe_glob_headers = Inr (h, rest)"
    and "h ''x-glob'' = Some v"
  shows "B2S_ConfirmUnsubscribeGlobParser_parse flags CONFIRM_UNSUBSCRIBE_GLOB payload =
     (case bytes_decode_utf8 v of
        Inl e \<Rightarrow> Inl e
      | Inr glob \<Rightarrow> Inr (B2S_ConfirmUnsubscribeGlob CONFIRM_UNSUBSCRIBE_GLOB glob))"
  using assms by (simp add: B2S_ConfirmUnsubscribeGlobParser_parse_def)

lemma confirm_subscribe_exact_parse_headers:
  assumes "parse_simple_headers flags payload confirm_subscribe_exact_headers = Inr (h, rest)"
    and "h ''x-topic'' = Some v"
  shows "B2S_ConfirmSubscribeExactParser_parse flags CONFIRM_SUBSCRIBE_EXACT payload =
     Inr (B2S_ConfirmSubscribeExact CONFIRM_SUBSCRIBE_EXACT v)"
  using assms by (simp add: B2S_ConfirmSubscribeExactParser_parse_def)

lemma confirm_unsubscribe_exact_parse_headers:
  assumes "parse_simple_headers flags payload confirm_unsubscribe_exact_headers = Inr (h, rest)"
    and "h ''x-topic'' = Some v"
  shows "B2S_ConfirmUnsubscribeExactParser_parse flags CONFIRM_UNSUBSCRIBE_EXACT payload =
     Inr (B2S_ConfirmUnsubscribeExact CONFIRM_UNSUBSCRIBE_EXACT v)"
  using assms by (simp add: B2S_ConfirmUnsubscribeExactParser_parse_def)

lemma length_int_to_minimal_unsigned_u64:
  "n < 2 ^ 64 \<Longrightarrow> length (int_to_minimal_unsigned n) \<le> 8"
proof -
  assume "n < 2 ^ 64"
  moreover have "(2::nat) ^ 64 = 256 ^ 8" by simp
  ultimately have "n < 256 ^ 8" by simp
  then show ?thesis by (rule length_int_to_minimal_unsigned_le) simp
qed

lemma length_int_to_minimal_unsigned_big:
  "2 ^ 64 \<le> n \<Longrightarrow> 8 < length (int_to_minimal_unsigned n)"
proof (rule ccontr)
  assume n: "2 ^ 64 \<le> n" and "\<not> 8 < length (int_to_minimal_unsigned n)"
  then have "length (int_to_minimal_unsigned n) \<le> 8" by simp
  then have "(256::nat) ^ length (int_to_minimal_unsigned n) \<le> 256 ^ 8"
    by (rule power_increasing) simp
  with int_from_bytes_big_lt [of "int_to_minimal_unsigned n"]
  have "n < 256 ^ 8" by (simp add: int_from_bytes_big_to_minimal)
  moreover have "(2::nat) ^ 64 = 256 ^ 8" by simp
  ultimately show False using n by simp
qed

lemma confirm_notify_serialize_parse:
  assumes "length i \<le> 65535" and "length (int_to_minimal_unsigned n) \<le> 65535"
  shows "\<exists>frame. serialize_b2s_confirm_notify (B2S_ConfirmNotify CONFIRM_NOTIFY i n) minimal = Inr frame
     \<and> hd frame = (if minimal then MINIMAL_HEADERS else 0)
     \<and> parse_b2s_frame frame =
        (if 64 < length i then Inl (ValueError ''x-identifier must be at most 64 bytes'')
         else if 8 < length (int_to_minimal_unsigned n)
           then Inl (ValueError ''x-subscribers must be at most 8 bytes'')
         else Inr (ConfirmNotify (B2S_ConfirmNotify CONFIRM_NOTIFY i n)))"
proof -
  let ?vals = "[i, int_to_minimal_unsigned n]"
  have "\<exists>frame. serialize_simple_message CONFIRM_NOTIFY confirm_notify_headers ?vals [] minimal = Inr frame"
    using assms by (intro serialize_simple_message_ok) (simp_all add: confirm_notify_headers_def)
  then obtain frame where
    frame: "serialize_simple_message CONFIRM_NOTIFY confirm_notify_headers ?vals [] minimal = Inr frame"
    by blast
  from parse_serialized_message [OF frame] obtain flags hs
    where f: "frame = flags # of_nat (b2s_type_value CONFIRM_NOTIFY) # hs"
      and h: "parse_simple_headers flags hs confirm_notify_headers =
                Inr (Map.empty(confirm_notify_headers [\<mapsto>] ?vals), [])"
    by blast
  have hd: "hd frame = (if minimal then MINIMAL_HEADERS else 0)"
    using frame by (auto simp: serialize_simple_message_def split: sum.splits)
  have 1: "(Map.empty(confirm_notify_headers [\<mapsto>] ?vals)) ''x-identifier'' = Some i"
    and 2: "(Map.empty(confirm_notify_headers [\<mapsto>] ?vals)) ''x-subscribers'' =
              Some (int_to_minimal_unsigned n)"
    by (simp_all add: confirm_notify_headers_def)
  have "parse_b2s_frame frame = parse_b2s_message flags CONFIRM_NOTIFY hs"
    unfolding f by (rule parse_b2s_frame_Cons)
  also have "\<dots> = map_sum id ConfirmNotify (B2S_ConfirmNotifyParser_parse flags CONFIRM_NOTIFY hs)"
    by (simp add: parse_b2s_message_def)
  finally show ?thesis
    using frame hd by (simp add: confirm_notify_parse_headers [OF h 1 2] int_from_bytes_big_to_minimal)
qed

lemma continue_notify_serialize_parse:
  assumes "length i \<le> 65535" and "length (int_to_minimal_unsigned n) \<le> 65535"
  shows "\<exists>frame. serialize_b2s_continue_notify (B2S_ContinueNotify CONTINUE_NOTIFY i n) minimal = Inr frame
     \<and> hd frame = (if minimal then MINIMAL_HEADERS else 0)
     \<and> parse_b2s_frame frame =
        (if 64 < length i then Inl (ValueError ''x-identifier must be at most 64 bytes'')
         else if 8 < length (int_to_minimal_unsigned n)
           then Inl (ValueError ''x-part-id must be at most 8 bytes'')
         else Inr (ContinueNotify (B2S_ContinueNotify CONTINUE_NOTIFY i n)))"
proof -
  let ?vals = "[i, int_to_minimal_unsigned n]"
  have "\<exists>frame. serialize_simple_message CONTINUE_NOTIFY continue_notify_headers ?vals [] minimal = Inr frame"
    using assms by (intro serialize_simple_message_ok) (simp_all add: continue_notify_headers_def)
  then obtain frame where
    frame: "serialize_simple_message CONTINUE_NOTIFY continue_notify_headers ?vals [] minimal = Inr frame"
    by blast
  from parse_serialized_message [OF frame] obtain flags hs
    where f: "frame = flags # of_nat (b2s_type_value CONTINUE_NOTIFY) # hs"
      and h: "parse_simple_headers flags hs continue_notify_headers =
                Inr (Map.empty(continue_notify_headers [\<mapsto>] ?vals), [])"
    by blast
  have hd: "hd frame = (if minimal then MINIMAL_HEADERS else 0)"
    using frame by (auto simp: serialize_simple_message_def split: sum.splits)
  have 1: "(Map.empty(continue_notify_headers [\<mapsto>] ?vals)) ''x-identifier'' = Some i"
    and 2: "(Map.empty(continue_notify_headers [\<mapsto>] ?vals)) ''x-part-id'' =
              Some (int_to_minimal_unsigned n)"
    by (simp_all add: continue_notify_headers_def)
  have "parse_b2s_frame frame = parse_b2s_message flags CONTINUE_NOTIFY hs"
    unfolding f by (rule parse_b2s_frame_Cons)
  also have "\<dots> = map_sum id ContinueNotify (B2S_ContinueNotifyParser_parse flags CONTINUE_NOTIFY hs)"
    by (simp add: parse_b2s_message_def)
  finally show ?thesis
    using frame hd by (simp add: continue_notify_parse_headers [OF h 1 2] int_from_bytes_big_to_minimal)
qed

lemma confirm_subscribe_exact_serialize_parse:
  assumes "length topic \<le> 65535"
  shows "\<exists>frame. serialize_b2s_confirm_subscribe_exact
            (B2S_ConfirmSubscribeExact CONFIRM_SUBSCRIBE_EXACT topic) minimal = Inr frame
     \<and> hd frame = (if minimal then MINIMAL_HEADERS else 0)
     \<and> parse_b2s_frame frame =
          Inr (ConfirmSubscribeExact (B2S_ConfirmSubscribeExact CONFIRM_SUBSCRIBE_EXACT topic))"
proof -
  have "\<exists>frame. serialize_simple_message CONFIRM_SUBSCRIBE_EXACT confirm_subscribe_exact_headers
          [topic] [] minimal = Inr frame"
    using assms
    by (intro serialize_simple_message_ok) (simp_all add: confirm_subscribe_exact_headers_def)
  then obtain frame where
    frame: "serialize_simple_message CONFIRM_SUBSCRIBE_EXACT confirm_subscribe_exact_headers
          [topic] [] minimal = Inr frame"
    by blast
  from parse_serialized_message [OF frame] obtain flags hs
    where f: "frame = flags # of_nat (b2s_type_value CONFIRM_SUBSCRIBE_EXACT) # hs"
      and h: "parse_simple_headers flags hs confirm_subscribe_exact_headers =
                Inr (Map.empty(confirm_subscribe_exact_headers [\<mapsto>] [topic]), [])"
    by blast
  have hd: "hd frame = (if minimal then MINIMAL_HEADERS else 0)"
    using frame by (auto simp: serialize_simple_message_def split: sum.splits)
  have 1: "(Map.empty(confirm_subscribe_exact_headers [\<mapsto>] [topic])) ''x-topic'' = Some topic"
    by (simp add: confirm_subscribe_exact_headers_def)
  have "parse_b2s_frame frame = parse_b2s_message flags CONFIRM_SUBSCRIBE_EXACT hs"
    unfolding f by (rule parse_b2s_frame_Cons)
  also have "\<dots> = map_sum id ConfirmSubscribeExact
      (B2S_ConfirmSubscribeExactParser_parse flags CONFIRM_SUBSCRIBE_EXACT hs)"
    by (simp add: parse_b2s_message_def)
  finally show ?thesis
    using frame hd by (simp add: confirm_subscribe_exact_parse_headers [OF h 1])
qed

lemma confirm_unsubscribe_exact_serialize_parse:
  assumes "length topic \<le> 65535"
  shows "\<exists>frame. serialize_b2s_confirm_unsubscribe_exact
            (B2S_ConfirmUnsubscribeExact CONFIRM_UNSUBSCRIBE_EXACT topic) minimal = Inr frame
     \<and> hd frame = (if minimal then MINIMAL_HEADERS else 0)
     \<and> parse_b2s_frame frame =
          Inr (ConfirmUnsubscribeExact (B2S_ConfirmUnsubscribeExact CONFIRM_UNSUBSCRIBE_EXACT topic))"
proof -
  have "\<exists>frame. serialize_simple_message CONFIRM_UNSUBSCRIBE_EXACT confirm_unsubscribe_exact_headers
          [topic] [] minimal = Inr frame"
    using assms
    by (intro serialize_simple_message_ok) (simp_all add: confirm_unsubscribe_exact_headers_def)
  then obtain frame where
    frame: "serialize_simple_message CONFIRM_UNSUBSCRIBE_EXACT confirm_unsubscribe_exact_headers
          [topic] [] minimal = Inr frame"
    by blast
  from parse_serialized_message [OF frame] obtain flags hs
    where f: "frame = flags # of_nat (b2s_type_value CONFIRM_UNSUBSCRIBE_EXACT) # hs"
      and h: "parse_simple_headers flags hs confirm_unsubscribe_exact_headers =
                Inr (Map.empty(confirm_unsubscribe_exact_headers [\<mapsto>] [topic]), [])"
    by blast
  have hd: "hd frame = (if minimal then MINIMAL_HEADERS else 0)"
    using frame by (auto simp: serialize_simple_message_def split: sum.splits)
  have 1: "(Map.empty(confirm_unsubscribe_exact_headers [\<mapsto>] [topic])) ''x-topic'' = Some topic"
    by (simp add: confirm_unsubscribe_exact_headers_def)
  have "parse_b2s_frame frame = parse_b2s_message flags CONFIRM_UNSUBSCRIBE_EXACT hs"
    unfolding f by (rule parse_b2s_frame_Cons)
  also have "\<dots> = map_sum id ConfirmUnsubscribeExact
      (B2S_ConfirmUnsubscribeExactParser_parse flags CONFIRM_UNSUBSCRIBE_EXACT hs)"
    by (simp add: parse_b2s_message_def)
  finally show ?thesis
    using frame hd by (simp add: confirm_unsubscribe_exact_parse_headers [OF h 1])
qed

lemma confirm_subscribe_glob_serialize_parse:
  assumes "utf8_encode glob = Some bs" and "length bs \<le> 65535"
  shows "\<exists>frame. serialize_b2s_confirm_subscribe_glob
            (B2S_ConfirmSubscribeGlob CONFIRM_SUBSCRIBE_GLOB glob) minimal = Inr frame
     \<and> hd frame = (if minimal then MINIMAL_HEADERS else 0)
     \<and> parse_b2s_frame frame =
          Inr (ConfirmSubscribeGlob (B2S_ConfirmSubscribeGlob CONFIRM_SUBSCRIBE_GLOB glob))"
proof -
  define gb :: bytes where "gb = map of_nat bs"
  have enc: "str_encode_utf8 glob = Inr gb" using assms(1) by (simp add: str_encode_utf8_def gb_def)
  have len: "length gb \<le> 65535" using assms(2) by (simp add: gb_def)
  have "\<exists>frame. serialize_simple_message CONFIRM_SUBSCRIBE_GLOB confirm_subscribe_glob_headers
          [gb] [] minimal = Inr frame"
    using len
    by (intro serialize_simple_message_ok) (simp_all add: confirm_subscribe_glob_headers_def)
  then obtain frame where
    frame: "serialize_simple_message CONFIRM_SUBSCRIBE_GLOB confirm_subscribe_glob_headers
          [gb] [] minimal = Inr frame"
    by blast
  from parse_serialized_message [OF frame] obtain flags hs
    where f: "frame = flags # of_nat (b2s_type_value CONFIRM_SUBSCRIBE_GLOB) # hs"
      and h: "parse_simple_headers flags hs confirm_subscribe_glob_headers =
                Inr (Map.empty(confirm_subscribe_glob_headers [\<mapsto>] [gb]), [])"
    by blast
  have hd: "hd frame = (if minimal then MINIMAL_HEADERS else 0)"
    using frame by (auto simp: serialize_simple_message_def split: sum.splits)
  have 1: "(Map.empty(confirm_subscribe_glob_headers [\<mapsto>] [gb])) ''x-glob'' = Some gb"
    by (simp add: confirm_subscribe_glob_headers_def)
  have "parse_b2s_frame frame = parse_b2s_message flags CONFIRM_SUBSCRIBE_GLOB hs"
    unfolding f by (rule parse_b2s_frame_Cons)
  also have "\<dots> = map_sum id ConfirmSubscribeGlob
      (B2S_ConfirmSubscribeGlobParser_parse flags CONFIRM_SUBSCRIBE_GLOB hs)"
    by (simp add: parse_b2s_message_def)
  finally show ?thesis
    using frame hd enc
    by (simp add: confirm_subscribe_glob_parse_headers [OF h 1] bytes_decode_str_encode [OF enc])
qed

lemma confirm_unsubscribe_glob_serialize_parse:
  assumes "utf8_encode glob = Some bs" and "length bs \<le> 65535"
  shows "\<exists>frame. serialize_b2s_confirm_unsubscribe_glob
            (B2S_ConfirmUnsubscribeGlob CONFIRM_UNSUBSCRIBE_GLOB glob) minimal = Inr frame
     \<and> hd frame = (if minimal then MINIMAL_HEADERS else 0)
     \<and> parse_b2s_frame frame =
          Inr (ConfirmUnsubscribeGlob (B2S_ConfirmUnsubscribeGlob CONFIRM_UNSUBSCRIBE_GLOB glob))"
proof -
  define gb :: bytes where "gb = map of_nat bs"
  have enc: "str_encode_utf8 glob = Inr gb" using assms(1) by (simp add: str_encode_utf8_def gb_def)
  have len: "length gb \<le> 65535" using assms(2) by (simp add: gb_def)
  have "\<exists>frame. serialize_simple_message CONFIRM_UNSUBSCRIBE_GLOB confirm_unsubscribe_glob_headers
          [gb] [] minimal = Inr frame"
    using len
    by (intro serialize_simple_message_ok) (simp_all add: confirm_unsubscribe_glob_headers_def)
  then obtain frame where
    frame: "serialize_simple_message CONFIRM_UNSUBSCRIBE_GLOB confirm_unsubscribe_glob_headers
          [gb] [] minimal = Inr frame"
    by blast
  from parse_serialized_message [OF frame] obtain flags hs
    where f: "frame = flags # of_nat (b2s_type_value CONFIRM_UNSUBSCRIBE_GLOB) # hs"
      and h: "parse_simple_headers flags hs confirm_unsubscribe_glob_headers =
                Inr (Map.empty(confirm_unsubscribe_glob_headers [\<mapsto>] [gb]), [])"
    by blast
  have hd: "hd frame = (if minimal then MINIMAL_HEADERS else 0)"
    using frame by (auto simp: serialize_simple_message_def split: sum.splits)
  have 1: "(Map.empty(confirm_unsubscribe_glob_headers [\<mapsto>] [gb])) ''x-glob'' = Some gb"
    by (simp add: confirm_unsubscribe_glob_headers_def)
  have "parse_b2s_frame frame = parse_b2s_message flags CONFIRM_UNSUBSCRIBE_GLOB hs"
    unfolding f by (rule parse_b2s_frame_Cons)
  also have "\<dots> = map_sum id ConfirmUnsubscribeGlob
      (B2S_ConfirmUnsubscribeGlobParser_parse flags CONFIRM_UNSUBSCRIBE_GLOB hs)"
    by (simp add: parse_b2s_message_def)
  finally show ?thesis
    using frame hd enc
    by (simp add: confirm_unsubscribe_glob_parse_headers [OF h 1] bytes_decode_str_encode [OF enc])
qed

lemma serialize_parse_valid:
  assumes "valid_message m"
  shows "\<exists>frame. serialize_b2s_message m minimal = Inr frame
     \<and> hd frame = (if minimal then MINIMAL_HEADERS else 0)
     \<and> parse_b2s_frame frame = Inr m"
proof (cases m)
  case (ConfirmSubscribeExact x)
  obtain t topic where x: "x = B2S_ConfirmSubscribeExact t topic" by (cases x)
  from assms ConfirmSubscribeExact x have "t = CONFIRM_SUBSCRIBE_EXACT" "length topic \<le> 65535"
    by simp_all
  with confirm_subscribe_exact_serialize_parse [of topic minimal] ConfirmSubscribeExact x
  show ?thesis by simp
next
  case (ConfirmSubscribeGlob x)
  obtain t glob where x: "x = B2S_ConfirmSubscribeGlob t glob" by (cases x)
  from assms ConfirmSubscribeGlob x obtain bs where "t = CONFIRM_SUBSCRIBE_GLOB"
    "utf8_encode glob = Some bs" "length bs \<le> 65535"
    by (auto split: option.splits)
  with confirm_subscribe_glob_serialize_parse [of glob bs minimal] ConfirmSubscribeGlob x
  show ?thesis by simp
next
  case (ConfirmUnsubscribeExact x)
  obtain t topic where x: "x = B2S_ConfirmUnsubscribeExact t topic" by (cases x)
  from assms ConfirmUnsubscribeExact x have "t = CONFIRM_UNSUBSCRIBE_EXACT" "length topic \<le> 65535"
    by simp_all
  with confirm_unsubscribe_exact_serialize_parse [of topic minimal] ConfirmUnsubscribeExact x
  show ?thesis by simp
next
  case (ConfirmUnsubscribeGlob x)
  obtain t glob where x: "x = B2S_ConfirmUnsubscribeGlob t glob" by (cases x)
  from assms ConfirmUnsubscribeGlob x obtain bs where "t = CONFIRM_UNSUBSCRIBE_GLOB"
    "utf8_encode glob = Some bs" "length bs \<le> 65535"
    by (auto split: option.splits)
  with confirm_unsubscribe_glob_serialize_parse [of glob bs minimal] ConfirmUnsubscribeGlob x
  show ?thesis by simp
next
  case (ConfirmNotify x)
  obtain t i n where x: "x = B2S_ConfirmNotify t i n" by (cases x)
  from assms ConfirmNotify x have t: "t = CONFIRM_NOTIFY" and i: "length i \<le> 64" and n: "n < 2 ^ 64"
    by simp_all
  from length_int_to_minimal_unsigned_u64 [OF n] have l: "length (int_to_minimal_unsigned n) \<le> 8" .
  from i l have "length i \<le> 65535" "length (int_to_minimal_unsigned n) \<le> 65535" by simp_all
  from confirm_notify_serialize_parse [OF this, of minimal] i l t ConfirmNotify x
  show ?thesis by simp
next
  case (ContinueNotify x)
  obtain t i n where x: "x = B2S_ContinueNotify t i n" by (cases x)
  from assms ContinueNotify x have t: "t = CONTINUE_NOTIFY" and i: "length i \<le> 64" and n: "n < 2 ^ 64"
    by simp_all
  from length_int_to_minimal_unsigned_u64 [OF n] have l: "length (int_to_minimal_unsigned n) \<le> 8" .
  from i l have "length i \<le> 65535" "length (int_to_minimal_unsigned n) \<le> 65535" by simp_all
  from continue_notify_serialize_parse [OF this, of minimal] i l t ContinueNotify x
  show ?thesis by simp
qed

section \<open>Concrete frames\<close>

lemmas serialize_eval =
  serialize_simple_message_def serialize_header_def u16_be_def name_bytes_def MINIMAL_HEADERS_def
  confirm_notify_headers_def continue_notify_headers_def confirm_subscribe_exact_headers_def
  confirm_subscribe_glob_headers_def confirm_unsubscribe_exact_headers_def
  confirm_unsubscribe_glob_headers_def

lemmas parse_eval =
  parse_b2s_frame_def b2s_type_of_code_def parse_b2s_message_def parse_simple_headers_def
  read_length_prefixed_def read_exact_def int_from_bytes_big_def bytes_name_def MINIMAL_HEADERS_def
  confirm_notify_headers_def continue_notify_headers_def confirm_subscribe_exact_headers_def
  confirm_subscribe_glob_headers_def confirm_unsubscribe_exact_headers_def
  confirm_unsubscribe_glob_headers_def

lemma int_to_minimal_unsigned_258: "int_to_minimal_unsigned 258 = [1, 2]"
  by (simp add: int_to_minimal_unsigned.simps [of 258] int_to_minimal_unsigned.simps [of "Suc 0"])

lemma int_to_minimal_unsigned_Suc_0: "int_to_minimal_unsigned (Suc 0) = [1]"
  by (simp add: int_to_minimal_unsigned.simps [of "Suc 0"])

lemma example_confirm_notify_minimal:
  "serialize_b2s_message (ConfirmNotify (B2S_ConfirmNotify CONFIRM_NOTIFY [170, 187] 258)) True
     = Inr [1, 6, 0, 2, 170, 187, 0, 2, 1, 2]"
  by (simp add: serialize_eval int_to_minimal_unsigned_258)

lemma example_confirm_notify_minimal_parse:
  "parse_b2s_frame [1, 6, 0, 2, 170, 187, 0, 2, 1, 2]
     = Inr (ConfirmNotify (B2S_ConfirmNotify CONFIRM_NOTIFY [170, 187] 258))"
  by (simp add: parse_eval B2S_ConfirmNotifyParser_parse_def)

lemma example_continue_notify_explicit:
  "serialize_b2s_message (ContinueNotify (B2S_ContinueNotify CONTINUE_NOTIFY [7] 1)) False
     = Inr ([0, 7, 0, 12] @ name_bytes ''x-identifier'' @ [0, 1, 7, 0, 9] @ name_bytes ''x-part-id''
            @ [0, 1, 1])"
  by (simp add: serialize_eval int_to_minimal_unsigned_Suc_0)

lemma example_glob_minimal:
  "serialize_b2s_message (ConfirmSubscribeGlob (B2S_ConfirmSubscribeGlob CONFIRM_SUBSCRIBE_GLOB [102, 233])) True
     = Inr [1, 3, 0, 3, 102, 195, 169]"
  by (simp add: serialize_eval str_encode_utf8_def utf8_encode_char_def)

lemma example_glob_minimal_parse:
  "parse_b2s_frame [1, 3, 0, 3, 102, 195, 169]
     = Inr (ConfirmSubscribeGlob (B2S_ConfirmSubscribeGlob CONFIRM_SUBSCRIBE_GLOB [102, 233]))"
  by (simp add: parse_eval B2S_ConfirmSubscribeGlobParser_parse_def bytes_decode_utf8_def
      is_continuation_def)

lemma example_glob_invalid_parse:
  "parse_b2s_frame [1, 3, 0, 1, 255] = Inl UnicodeDecodeError"
  by (simp add: parse_eval B2S_ConfirmSubscribeGlobParser_parse_def bytes_decode_utf8_def
      is_continuation_def)

lemma example_valid:
  "valid_message (ConfirmSubscribeGlob (B2S_ConfirmSubscribeGlob CONFIRM_SUBSCRIBE_GLOB [102, 233]))"
  "valid_message (ConfirmNotify (B2S_ConfirmNotify CONFIRM_NOTIFY [170, 187] 258))"
  by (simp_all add: utf8_encode_char_def scalar_value_def)

section \<open>The claims about the codec\<close>

text \<open>
  Claim C1. For every message kind with a parser and a serializer in the source files
  (confirm subscribe exact and glob, confirm unsubscribe exact and glob, confirm notify,
  continue notify), in both header modes, serializing a valid message succeeds and
  parsing the frame gives the message back. Valid means: the discriminator of the kind,
  an identifier of at most 64 bytes, \<open>subscribers\<close> and \<open>part_id\<close> below \<open>2^64\<close>, a glob of
  Unicode scalar values, and header values of at most 65535 bytes.
\<close>

theorem parse_serialize_roundtrip:
  "valid_message m \<Longrightarrow>
   \<exists>frame. serialize_b2s_message m minimal_headers = Inr frame \<and> parse_b2s_frame frame = Inr m"
  using serialize_parse_valid [of m minimal_headers] by blast

text \<open>
  The theorem at a confirm-notify message in minimal mode, with its frame written out,
  and at a glob with a non-ASCII character in explicit mode.
\<close>

theorem parse_serialize_roundtrip_witness:
  "valid_message (ConfirmNotify (B2S_ConfirmNotify CONFIRM_NOTIFY [170, 187] 258))
   \<and> serialize_b2s_message (ConfirmNotify (B2S_ConfirmNotify CONFIRM_NOTIFY [170, 187] 258)) True
       = Inr [1, 6, 0, 2, 170, 187, 0, 2, 1, 2]
   \<and> parse_b2s_frame [1, 6, 0, 2, 170, 187, 0, 2, 1, 2]
       = Inr (ConfirmNotify (B2S_ConfirmNotify CONFIRM_NOTIFY [170, 187] 258))
   \<and> valid_message (ConfirmSubscribeGlob (B2S_ConfirmSubscribeGlob CONFIRM_SUBSCRIBE_GLOB [102, 233]))
   \<and> (\<exists>frame. serialize_b2s_message
          (ConfirmSubscribeGlob (B2S_ConfirmSubscribeGlob CONFIRM_SUBSCRIBE_GLOB [102, 233])) False
            = Inr frame
        \<and> parse_b2s_frame frame
            = Inr (ConfirmSubscribeGlob (B2S_ConfirmSubscribeGlob CONFIRM_SUBSCRIBE_GLOB [102, 233])))"
proof -
  note v = example_valid
  from parse_serialize_roundtrip [OF v(2), of True] example_confirm_notify_minimal
  have "parse_b2s_frame [1, 6, 0, 2, 170, 187, 0, 2, 1, 2]
       = Inr (ConfirmNotify (B2S_ConfirmNotify CONFIRM_NOTIFY [170, 187] 258))"
    by simp
  with v example_confirm_notify_minimal parse_serialize_roundtrip [OF v(1), of False]
  show ?thesis by simp
qed

lemma MINIMAL_HEADERS_nonzero: "MINIMAL_HEADERS \<noteq> 0"
  by (simp add: MINIMAL_HEADERS_def)

text \<open>
  Claim C2. For every valid message, the explicit-mode frame and the minimal-mode frame
  are different byte strings and both parse, to the same typed value.
\<close>

theorem minimal_explicit_same_value:
  "valid_message m \<Longrightarrow>
   \<exists>explicit_frame minimal_frame v.
      serialize_b2s_message m False = Inr explicit_frame
    \<and> serialize_b2s_message m True = Inr minimal_frame
    \<and> explicit_frame \<noteq> minimal_frame
    \<and> parse_b2s_frame explicit_frame = Inr v
    \<and> parse_b2s_frame minimal_frame = Inr v"
proof -
  assume v: "valid_message m"
  from serialize_parse_valid [OF v, of False] obtain f where
    f: "serialize_b2s_message m False = Inr f" "hd f = 0" "parse_b2s_frame f = Inr m"
    by auto
  from serialize_parse_valid [OF v, of True] obtain t where
    t: "serialize_b2s_message m True = Inr t" "hd t = MINIMAL_HEADERS" "parse_b2s_frame t = Inr m"
    by auto
  from f(2) t(2) MINIMAL_HEADERS_nonzero have "f \<noteq> t" by auto
  with f t show ?thesis by blast
qed

text \<open>The theorem at a continue-notify message, with both frames written out.\<close>

theorem minimal_explicit_same_value_witness:
  "valid_message (ContinueNotify (B2S_ContinueNotify CONTINUE_NOTIFY [7] 1))
   \<and> serialize_b2s_message (ContinueNotify (B2S_ContinueNotify CONTINUE_NOTIFY [7] 1)) False
       = Inr ([0, 7, 0, 12] @ name_bytes ''x-identifier'' @ [0, 1, 7, 0, 9]
              @ name_bytes ''x-part-id'' @ [0, 1, 1])
   \<and> serialize_b2s_message (ContinueNotify (B2S_ContinueNotify CONTINUE_NOTIFY [7] 1)) True
       = Inr [1, 7, 0, 1, 7, 0, 1, 1]
   \<and> parse_b2s_frame ([0, 7, 0, 12] @ name_bytes ''x-identifier'' @ [0, 1, 7, 0, 9]
              @ name_bytes ''x-part-id'' @ [0, 1, 1])
       = parse_b2s_frame [1, 7, 0, 1, 7, 0, 1, 1]"
proof -
  have v: "valid_message (ContinueNotify (B2S_ContinueNotify CONTINUE_NOTIFY [7] 1))" by simp
  have t: "serialize_b2s_message (ContinueNotify (B2S_ContinueNotify CONTINUE_NOTIFY [7] 1)) True
       = Inr [1, 7, 0, 1, 7, 0, 1, 1]"
    by (simp add: serialize_eval int_to_minimal_unsigned_Suc_0)
  from minimal_explicit_same_value [OF v] example_continue_notify_explicit t v
  show ?thesis by auto
qed

text \<open>
  Claim C3. Take a payload whose header section decodes and holds the expected headers.
  Parsing it as confirm notify fails with a \<open>ValueError\<close> (the validation error) exactly
  when the \<open>x-identifier\<close> value has more than 64 bytes or the \<open>x-subscribers\<close> value has
  more than 8; the error names the offending header, the identifier first; in every other
  case the parser returns the typed message, the count read big-endian. The same holds
  for continue notify with \<open>x-part-id\<close>.
\<close>

theorem notify_parsers_validation:
  "(parse_simple_headers flags payload confirm_notify_headers = Inr (h, rest)
      \<and> h ''x-identifier'' = Some i \<and> h ''x-subscribers'' = Some s \<longrightarrow>
      ((\<exists>msg. B2S_ConfirmNotifyParser_parse flags CONFIRM_NOTIFY payload = Inl (ValueError msg))
         = (64 < length i \<or> 8 < length s))
      \<and> B2S_ConfirmNotifyParser_parse flags CONFIRM_NOTIFY payload =
          (if 64 < length i then Inl (ValueError ''x-identifier must be at most 64 bytes'')
           else if 8 < length s then Inl (ValueError ''x-subscribers must be at most 8 bytes'')
           else Inr (B2S_ConfirmNotify CONFIRM_NOTIFY i (int_from_bytes_big s))))
   \<and> (parse_simple_headers flags payload continue_notify_headers = Inr (h, rest)
      \<and> h ''x-identifier'' = Some i \<and> h ''x-part-id'' = Some s \<longrightarrow>
      ((\<exists>msg. B2S_ContinueNotifyParser_parse flags CONTINUE_NOTIFY payload = Inl (ValueError msg))
         = (64 < length i \<or> 8 < length s))
      \<and> B2S_ContinueNotifyParser_parse flags CONTINUE_NOTIFY payload =
          (if 64 < length i then Inl (ValueError ''x-identifier must be at most 64 bytes'')
           else if 8 < length s then Inl (ValueError ''x-part-id must be at most 8 bytes'')
           else Inr (B2S_ContinueNotify CONTINUE_NOTIFY i (int_from_bytes_big s))))"
proof (intro conjI impI)
  assume a: "parse_simple_headers flags payload confirm_notify_headers = Inr (h, rest)
      \<and> h ''x-identifier'' = Some i \<and> h ''x-subscribers'' = Some s"
  then have p: "B2S_ConfirmNotifyParser_parse flags CONFIRM_NOTIFY payload =
          (if 64 < length i then Inl (ValueError ''x-identifier must be at most 64 bytes'')
           else if 8 < length s then Inl (ValueError ''x-subscribers must be at most 8 bytes'')
           else Inr (B2S_ConfirmNotify CONFIRM_NOTIFY i (int_from_bytes_big s)))"
    using confirm_notify_parse_headers by blast
  show "B2S_ConfirmNotifyParser_parse flags CONFIRM_NOTIFY payload =
          (if 64 < length i then Inl (ValueError ''x-identifier must be at most 64 bytes'')
           else if 8 < length s then Inl (ValueError ''x-subscribers must be at most 8 bytes'')
           else Inr (B2S_ConfirmNotify CONFIRM_NOTIFY i (int_from_bytes_big s)))"
    by (rule p)
  show "(\<exists>msg. B2S_ConfirmNotifyParser_parse flags CONFIRM_NOTIFY payload = Inl (ValueError msg))
         = (64 < length i \<or> 8 < length s)"
    unfolding p by auto
next
  assume a: "parse_simple_headers flags payload continue_notify_headers = Inr (h, rest)
      \<and> h ''x-identifier'' = Some i \<and> h ''x-part-id'' = Some s"
  then have p: "B2S_ContinueNotifyParser_parse flags CONTINUE_NOTIFY payload =
          (if 64 < length i then Inl (ValueError ''x-identifier must be at most 64 bytes'')
           else if 8 < length s then Inl (ValueError ''x-part-id must be at most 8 bytes'')
           else Inr (B2S_ContinueNotify CONTINUE_NOTIFY i (int_from_bytes_big s)))"
    using continue_notify_parse_headers by blast
  show "B2S_ContinueNotifyParser_parse flags CONTINUE_NOTIFY payload =
          (if 64 < length i then Inl (ValueError ''x-identifier must be at most 64 bytes'')
           else if 8 < length s then Inl (ValueError ''x-part-id must be at most 8 bytes'')
           else Inr (B2S_ContinueNotify CONTINUE_NOTIFY i (int_from_bytes_big s)))"
    by (rule p)
  show "(\<exists>msg. B2S_ContinueNotifyParser_parse flags CONTINUE_NOTIFY payload = Inl (ValueError msg))
         = (64 < length i \<or> 8 < length s)"
    unfolding p by auto
qed

lemma example_headers_confirm_notify:
  "parse_simple_headers 1 [0, 2, 170, 187, 0, 9, 1, 2, 3, 4, 5, 6, 7, 8, 9] confirm_notify_headers
     = Inr ([''x-identifier'' \<mapsto> [170, 187], ''x-subscribers'' \<mapsto> [1, 2, 3, 4, 5, 6, 7, 8, 9]], [])"
  by (simp add: parse_eval)

lemma example_headers_continue_notify:
  "parse_simple_headers 1 [0, 2, 170, 187, 0, 2, 0, 5] continue_notify_headers
     = Inr ([''x-identifier'' \<mapsto> [170, 187], ''x-part-id'' \<mapsto> [0, 5]], [])"
  by (simp add: parse_eval)

text \<open>
  The theorem at a confirm-notify payload with a 9-byte count (rejected) and at a
  continue-notify payload with a 2-byte part id (accepted).
\<close>

theorem notify_parsers_validation_witness:
  "parse_simple_headers 1 [0, 2, 170, 187, 0, 9, 1, 2, 3, 4, 5, 6, 7, 8, 9] confirm_notify_headers
     = Inr ([''x-identifier'' \<mapsto> [170, 187], ''x-subscribers'' \<mapsto> [1, 2, 3, 4, 5, 6, 7, 8, 9]], [])
   \<and> B2S_ConfirmNotifyParser_parse 1 CONFIRM_NOTIFY [0, 2, 170, 187, 0, 9, 1, 2, 3, 4, 5, 6, 7, 8, 9]
       = Inl (ValueError ''x-subscribers must be at most 8 bytes'')
   \<and> parse_simple_headers 1 [0, 2, 170, 187, 0, 2, 0, 5] continue_notify_headers
     = Inr ([''x-identifier'' \<mapsto> [170, 187], ''x-part-id'' \<mapsto> [0, 5]], [])
   \<and> B2S_ContinueNotifyParser_parse 1 CONTINUE_NOTIFY [0, 2, 170, 187, 0, 2, 0, 5]
       = Inr (B2S_ContinueNotify CONTINUE_NOTIFY [170, 187] 5)"
proof -
  have b: "int_from_bytes_big [0, 5] = 5" by (simp add: int_from_bytes_big_def)
  from notify_parsers_validation
    [of 1 "[0, 2, 170, 187, 0, 9, 1, 2, 3, 4, 5, 6, 7, 8, 9]"
        "[''x-identifier'' \<mapsto> [170, 187], ''x-subscribers'' \<mapsto> [1, 2, 3, 4, 5, 6, 7, 8, 9]]" "[]"
        "[170, 187]" "[1, 2, 3, 4, 5, 6, 7, 8, 9]"]
    example_headers_confirm_notify
  have 1: "B2S_ConfirmNotifyParser_parse 1 CONFIRM_NOTIFY [0, 2, 170, 187, 0, 9, 1, 2, 3, 4, 5, 6, 7, 8, 9]
       = Inl (ValueError ''x-subscribers must be at most 8 bytes'')"
    by simp
  from notify_parsers_validation
    [of 1 "[0, 2, 170, 187, 0, 2, 0, 5]"
        "[''x-identifier'' \<mapsto> [170, 187], ''x-part-id'' \<mapsto> [0, 5]]" "[]"
        "[170, 187]" "[0, 5]"]
    example_headers_continue_notify b
  have 2: "B2S_ContinueNotifyParser_parse 1 CONTINUE_NOTIFY [0, 2, 170, 187, 0, 2, 0, 5]
       = Inr (B2S_ContinueNotify CONTINUE_NOTIFY [170, 187] 5)"
    by simp
  from 1 2 example_headers_confirm_notify example_headers_continue_notify show ?thesis by simp
qed

lemma bytes_decode_utf8_error: "bytes_decode_utf8 v = Inl e \<Longrightarrow> e = UnicodeDecodeError"
  by (auto simp: bytes_decode_utf8_def split: option.splits)

lemma bytes_decode_utf8_iff: "(bytes_decode_utf8 v = Inr g) = (str_encode_utf8 g = Inr v)"
  using bytes_decode_str_encode str_encode_bytes_decode by blast

lemma bytes_decode_utf8_invalid:
  "\<not> (\<exists>g. str_encode_utf8 g = Inr v) \<Longrightarrow> bytes_decode_utf8 v = Inl UnicodeDecodeError"
proof -
  assume n: "\<not> (\<exists>g. str_encode_utf8 g = Inr v)"
  show ?thesis
  proof (cases "bytes_decode_utf8 v")
    case (Inl e)
    with bytes_decode_utf8_error [OF Inl] show ?thesis by simp
  next
    case (Inr g)
    with n bytes_decode_utf8_iff [of v g] show ?thesis by blast
  qed
qed

text \<open>
  Claim C7. Take a payload whose header section decodes and holds \<open>x-glob\<close>. The glob
  parsers (subscribe and unsubscribe) return the UTF-8 decoding of the header value as the
  \<open>glob\<close> field, and fail with \<open>UnicodeDecodeError\<close> whenever the value is not the UTF-8
  encoding of any string. The glob serializers emit the UTF-8 encoding of the \<open>glob\<close>
  field as the single header value. Decoding and encoding are inverse to each other.
\<close>

theorem glob_header_is_utf8:
  "(parse_simple_headers flags payload confirm_subscribe_glob_headers = Inr (h, rest)
      \<and> h ''x-glob'' = Some v \<longrightarrow>
      B2S_ConfirmSubscribeGlobParser_parse flags CONFIRM_SUBSCRIBE_GLOB payload =
        (case bytes_decode_utf8 v of
           Inl e \<Rightarrow> Inl e
         | Inr glob \<Rightarrow> Inr (B2S_ConfirmSubscribeGlob CONFIRM_SUBSCRIBE_GLOB glob))
      \<and> (\<not> (\<exists>g. str_encode_utf8 g = Inr v) \<longrightarrow>
           B2S_ConfirmSubscribeGlobParser_parse flags CONFIRM_SUBSCRIBE_GLOB payload
             = Inl UnicodeDecodeError))
   \<and> (parse_simple_headers flags payload confirm_unsubscribe_glob_headers = Inr (h, rest)
      \<and> h ''x-glob'' = Some v \<longrightarrow>
      B2S_ConfirmUnsubscribeGlobParser_parse flags CONFIRM_UNSUBSCRIBE_GLOB payload =
        (case bytes_decode_utf8 v of
           Inl e \<Rightarrow> Inl e
         | Inr glob \<Rightarrow> Inr (B2S_ConfirmUnsubscribeGlob CONFIRM_UNSUBSCRIBE_GLOB glob))
      \<and> (\<not> (\<exists>g. str_encode_utf8 g = Inr v) \<longrightarrow>
           B2S_ConfirmUnsubscribeGlobParser_parse flags CONFIRM_UNSUBSCRIBE_GLOB payload
             = Inl UnicodeDecodeError))
   \<and> serialize_b2s_confirm_subscribe_glob (B2S_ConfirmSubscribeGlob t glob) minimal_headers =
        (case str_encode_utf8 glob of
           Inl e \<Rightarrow> Inl e
         | Inr b \<Rightarrow> serialize_simple_message t confirm_subscribe_glob_headers [b] [] minimal_headers)
   \<and> serialize_b2s_confirm_unsubscribe_glob (B2S_ConfirmUnsubscribeGlob t glob) minimal_headers =
        (case str_encode_utf8 glob of
           Inl e \<Rightarrow> Inl e
         | Inr b \<Rightarrow> serialize_simple_message t confirm_unsubscribe_glob_headers [b] [] minimal_headers)
   \<and> ((bytes_decode_utf8 v = Inr glob) = (str_encode_utf8 glob = Inr v))"
proof (intro conjI impI)
  assume a: "parse_simple_headers flags payload confirm_subscribe_glob_headers = Inr (h, rest)
      \<and> h ''x-glob'' = Some v"
  then show p: "B2S_ConfirmSubscribeGlobParser_parse flags CONFIRM_SUBSCRIBE_GLOB payload =
        (case bytes_decode_utf8 v of
           Inl e \<Rightarrow> Inl e
         | Inr glob \<Rightarrow> Inr (B2S_ConfirmSubscribeGlob CONFIRM_SUBSCRIBE_GLOB glob))"
    using confirm_subscribe_glob_parse_headers by blast
  assume "\<not> (\<exists>g. str_encode_utf8 g = Inr v)"
  then have "bytes_decode_utf8 v = Inl UnicodeDecodeError" by (rule bytes_decode_utf8_invalid)
  with p show "B2S_ConfirmSubscribeGlobParser_parse flags CONFIRM_SUBSCRIBE_GLOB payload
             = Inl UnicodeDecodeError" by simp
next
  assume a: "parse_simple_headers flags payload confirm_unsubscribe_glob_headers = Inr (h, rest)
      \<and> h ''x-glob'' = Some v"
  then show p: "B2S_ConfirmUnsubscribeGlobParser_parse flags CONFIRM_UNSUBSCRIBE_GLOB payload =
        (case bytes_decode_utf8 v of
           Inl e \<Rightarrow> Inl e
         | Inr glob \<Rightarrow> Inr (B2S_ConfirmUnsubscribeGlob CONFIRM_UNSUBSCRIBE_GLOB glob))"
    using confirm_unsubscribe_glob_parse_headers by blast
  assume "\<not> (\<exists>g. str_encode_utf8 g = Inr v)"
  then have "bytes_decode_utf8 v = Inl UnicodeDecodeError" by (rule bytes_decode_utf8_invalid)
  with p show "B2S_ConfirmUnsubscribeGlobParser_parse flags CONFIRM_UNSUBSCRIBE_GLOB payload
             = Inl UnicodeDecodeError" by simp
next
  show "(bytes_decode_utf8 v = Inr glob) = (str_encode_utf8 glob = Inr v)"
    by (rule bytes_decode_utf8_iff)
qed simp_all

lemma example_headers_glob:
  "parse_simple_headers 1 [0, 3, 102, 195, 169] confirm_subscribe_glob_headers
     = Inr ([''x-glob'' \<mapsto> [102, 195, 169]], [])"
  "parse_simple_headers 1 [0, 1, 255] confirm_unsubscribe_glob_headers
     = Inr ([''x-glob'' \<mapsto> [255]], [])"
  by (simp_all add: parse_eval)

lemma example_utf8:
  "bytes_decode_utf8 [102, 195, 169] = Inr [102, 233]"
  "bytes_decode_utf8 [255] = Inl UnicodeDecodeError"
  by (simp_all add: bytes_decode_utf8_def is_continuation_def)

text \<open>
  The theorem at the value \<open>66 C3 A9\<close> (decoded to the code points 66 and E9) and at
  the value \<open>FF\<close>, which is not UTF-8.
\<close>

theorem glob_header_is_utf8_witness:
  "parse_simple_headers 1 [0, 3, 102, 195, 169] confirm_subscribe_glob_headers
     = Inr ([''x-glob'' \<mapsto> [102, 195, 169]], [])
   \<and> B2S_ConfirmSubscribeGlobParser_parse 1 CONFIRM_SUBSCRIBE_GLOB [0, 3, 102, 195, 169]
       = Inr (B2S_ConfirmSubscribeGlob CONFIRM_SUBSCRIBE_GLOB [102, 233])
   \<and> str_encode_utf8 [102, 233] = Inr [102, 195, 169]
   \<and> parse_simple_headers 1 [0, 1, 255] confirm_unsubscribe_glob_headers
     = Inr ([''x-glob'' \<mapsto> [255]], [])
   \<and> \<not> (\<exists>g. str_encode_utf8 g = Inr [255])
   \<and> B2S_ConfirmUnsubscribeGlobParser_parse 1 CONFIRM_UNSUBSCRIBE_GLOB [0, 1, 255]
       = Inl UnicodeDecodeError"
proof -
  have n: "\<not> (\<exists>g. str_encode_utf8 g = Inr [255])"
  proof
    assume "\<exists>g. str_encode_utf8 g = Inr [255]"
    then obtain g where "str_encode_utf8 g = Inr [255]" ..
    then have "bytes_decode_utf8 [255] = Inr g" by (rule bytes_decode_str_encode)
    with example_utf8(2) show False by simp
  qed
  from glob_header_is_utf8
    [of 1 "[0, 3, 102, 195, 169]" "[''x-glob'' \<mapsto> [102, 195, 169]]" "[]" "[102, 195, 169]"
       CONFIRM_SUBSCRIBE_GLOB "[102, 233]" True]
    example_headers_glob(1) example_utf8(1)
  have 1: "B2S_ConfirmSubscribeGlobParser_parse 1 CONFIRM_SUBSCRIBE_GLOB [0, 3, 102, 195, 169]
       = Inr (B2S_ConfirmSubscribeGlob CONFIRM_SUBSCRIBE_GLOB [102, 233])"
    and 2: "str_encode_utf8 [102, 233] = Inr [102, 195, 169]"
    by simp_all
  from glob_header_is_utf8
    [of 1 "[0, 1, 255]" "[''x-glob'' \<mapsto> [255]]" "[]" "[255]" CONFIRM_UNSUBSCRIBE_GLOB "[]" True]
    example_headers_glob(2) n example_utf8(2)
  have 3: "B2S_ConfirmUnsubscribeGlobParser_parse 1 CONFIRM_UNSUBSCRIBE_GLOB [0, 1, 255]
       = Inl UnicodeDecodeError"
    by simp
  from 1 2 3 n example_headers_glob show ?thesis by simp
qed

lemma parse_headers_loop_bounded:
  "parse_headers_loop minimal names buf acc = Inr (h, rest) \<Longrightarrow>
   \<forall>k v. acc k = Some v \<longrightarrow> length k \<le> 65535 \<and> length v \<le> 65535 \<Longrightarrow>
   h k = Some v \<Longrightarrow> length k \<le> 65535 \<and> length v \<le> 65535"
proof (induction names arbitrary: buf acc)
  case Nil
  then show ?case by simp
next
  case (Cons n ns)
  from Cons.prems(1) have n: "length n \<le> 65535" by (auto split: if_splits)
  show ?case
  proof (cases minimal)
    case True
    with Cons.prems(1) obtain x r where x: "read_length_prefixed buf = Inr (x, r)"
      and loop: "parse_headers_loop minimal ns r (acc(n \<mapsto> x)) = Inr (h, rest)"
      by (auto split: if_splits sum.splits)
    from x have "length x \<le> 65535" by (rule read_length_prefixed_length)
    with Cons.prems(2) n
    have "\<forall>k v. (acc(n \<mapsto> x)) k = Some v \<longrightarrow> length k \<le> 65535 \<and> length v \<le> 65535" by auto
    from Cons.IH [OF loop this Cons.prems(3)] show ?thesis .
  next
    case False
    with Cons.prems(1) obtain nb r x r' where nb: "read_length_prefixed buf = Inr (nb, r)"
      and x: "read_length_prefixed r = Inr (x, r')"
      and loop: "parse_headers_loop minimal ns r' (acc(bytes_name nb \<mapsto> x)) = Inr (h, rest)"
      by (auto split: if_splits sum.splits)
    from x have "length x \<le> 65535" by (rule read_length_prefixed_length)
    moreover from nb have "length (bytes_name nb) \<le> 65535"
      using read_length_prefixed_length [OF nb] by (simp add: bytes_name_def)
    ultimately
    have "\<forall>k v. (acc(bytes_name nb \<mapsto> x)) k = Some v \<longrightarrow> length k \<le> 65535 \<and> length v \<le> 65535"
      using Cons.prems(2) by auto
    from Cons.IH [OF loop this Cons.prems(3)] show ?thesis .
  qed
qed

lemma parse_headers_loop_error:
  "parse_headers_loop minimal names buf acc = Inl e \<Longrightarrow> e = MalformedHeader"
proof (induction names arbitrary: buf acc)
  case Nil
  then show ?case by simp
next
  case (Cons n ns)
  then show ?case
    by (auto simp: read_length_prefixed_def read_exact_def split: if_splits sum.splits prod.splits)
qed

lemma parse_headers_loop_names_ok:
  "parse_headers_loop minimal names buf acc = Inr p \<Longrightarrow> n \<in> set names \<Longrightarrow> length n \<le> 65535"
proof (induction names arbitrary: buf acc)
  case Nil
  then show ?case by simp
next
  case (Cons a ns)
  then show ?case
    by (auto split: if_splits sum.splits prod.splits)
qed

lemma parse_headers_loop_names_too_long:
  assumes "\<exists>n \<in> set names. 65535 < length n"
  shows "parse_headers_loop minimal names buf acc = Inl MalformedHeader"
proof (cases "parse_headers_loop minimal names buf acc")
  case (Inl e)
  with parse_headers_loop_error [OF Inl] show ?thesis by simp
next
  case (Inr p)
  from assms obtain n where "n \<in> set names" "65535 < length n" by blast
  with parse_headers_loop_names_ok [OF Inr, of n] show ?thesis by simp
qed

text \<open>
  Claim C8. In both header modes: encoding a header section fails with
  \<open>MalformedHeader\<close> when a name or a value has more than 65535 bytes; decoding fails
  with \<open>MalformedHeader\<close> when an expected name has more than 65535 bytes; when every
  name and value has at most 65535 bytes (exactly 65535 included) encoding succeeds and
  decoding returns the names and values; and decoding never returns a name or a value of
  more than 65535 bytes.
\<close>

theorem header_size_ceiling:
  "((\<exists>n \<in> set names. 65535 < length n) \<or> (\<exists>v \<in> set vals. 65535 < length v) \<longrightarrow>
      serialize_simple_headers names vals minimal = Inl MalformedHeader)
   \<and> ((\<exists>n \<in> set names. 65535 < length n) \<longrightarrow>
      parse_simple_headers flags payload names = Inl MalformedHeader)
   \<and> (length names = length vals \<and> (\<forall>n \<in> set names. length n \<le> 65535)
        \<and> (\<forall>v \<in> set vals. length v \<le> 65535) \<longrightarrow>
      (\<exists>bs. serialize_simple_headers names vals minimal = Inr bs
         \<and> parse_simple_headers (if minimal then MINIMAL_HEADERS else 0) (bs @ rest) names
             = Inr (Map.empty(names [\<mapsto>] vals), rest)))
   \<and> (parse_simple_headers flags payload names = Inr (h, rest') \<and> h k = Some v \<longrightarrow>
      length k \<le> 65535 \<and> length v \<le> 65535)"
proof (intro conjI impI)
  assume "(\<exists>n \<in> set names. 65535 < length n) \<or> (\<exists>v \<in> set vals. 65535 < length v)"
  then show "serialize_simple_headers names vals minimal = Inl MalformedHeader"
    by (rule serialize_simple_headers_too_long)
next
  assume "\<exists>n \<in> set names. 65535 < length n"
  then show "parse_simple_headers flags payload names = Inl MalformedHeader"
    unfolding parse_simple_headers_def by (rule parse_headers_loop_names_too_long)
next
  assume a: "length names = length vals \<and> (\<forall>n \<in> set names. length n \<le> 65535)
        \<and> (\<forall>v \<in> set vals. length v \<le> 65535)"
  then obtain bs where bs: "serialize_simple_headers names vals minimal = Inr bs"
    using serialize_simple_headers_ok [of names vals minimal] by blast
  from parse_serialized_headers [OF bs, of rest Map.empty]
  have "parse_simple_headers (if minimal then MINIMAL_HEADERS else 0) (bs @ rest) names
             = Inr (Map.empty(names [\<mapsto>] vals), rest)"
    unfolding parse_simple_headers_def minimal_flag .
  with bs show "\<exists>bs. serialize_simple_headers names vals minimal = Inr bs
         \<and> parse_simple_headers (if minimal then MINIMAL_HEADERS else 0) (bs @ rest) names
             = Inr (Map.empty(names [\<mapsto>] vals), rest)"
    by blast
next
  assume a: "parse_simple_headers flags payload names = Inr (h, rest') \<and> h k = Some v"
  then have p: "parse_headers_loop (flags AND MINIMAL_HEADERS \<noteq> 0) names payload Map.empty
      = Inr (h, rest')" and k: "h k = Some v"
    by (simp_all add: parse_simple_headers_def)
  have e: "\<forall>k v. (Map.empty :: string \<rightharpoonup> bytes) k = Some v
      \<longrightarrow> length k \<le> 65535 \<and> length v \<le> 65535"
    by simp
  from parse_headers_loop_bounded [OF p e k]
  show "length k \<le> 65535" and "length v \<le> 65535" by simp_all
qed

text \<open>
  The theorem at a value and at a name of 65536 bytes (refused), at a name and a value of
  exactly 65535 bytes (accepted and returned, in both modes), and at a decoded section.
\<close>

theorem header_size_ceiling_witness:
  "serialize_simple_headers [''x-topic''] [replicate 65536 7] True = Inl MalformedHeader
   \<and> serialize_simple_headers [replicate 65536 (CHR ''a'')] [[]] False = Inl MalformedHeader
   \<and> parse_simple_headers 0 [] [replicate 65536 (CHR ''a'')] = Inl MalformedHeader
   \<and> length (replicate 65535 (CHR ''a'')) = 65535 \<and> length (replicate 65535 (7 :: byte)) = 65535
   \<and> (\<exists>bs. serialize_simple_headers [replicate 65535 (CHR ''a'')] [replicate 65535 7] False = Inr bs
         \<and> parse_simple_headers 0 bs [replicate 65535 (CHR ''a'')]
             = Inr ([replicate 65535 (CHR ''a'') \<mapsto> replicate 65535 7], []))
   \<and> (\<exists>bs. serialize_simple_headers [replicate 65535 (CHR ''a'')] [replicate 65535 7] True = Inr bs
         \<and> parse_simple_headers MINIMAL_HEADERS bs [replicate 65535 (CHR ''a'')]
             = Inr ([replicate 65535 (CHR ''a'') \<mapsto> replicate 65535 7], []))
   \<and> parse_simple_headers 1 [0, 1, 255] confirm_unsubscribe_glob_headers
       = Inr ([''x-glob'' \<mapsto> [255]], [])
   \<and> length ''x-glob'' \<le> 65535 \<and> length [255 :: byte] \<le> 65535"
proof -
  have 1: "serialize_simple_headers [''x-topic''] [replicate 65536 7] True = Inl MalformedHeader"
    using header_size_ceiling [where names = "[''x-topic'']" and vals = "[replicate 65536 7]"
        and minimal = True]
    by simp
  have 2: "serialize_simple_headers [replicate 65536 (CHR ''a'')] [[]] False = Inl MalformedHeader"
    and 3: "parse_simple_headers 0 [] [replicate 65536 (CHR ''a'')] = Inl MalformedHeader"
    using header_size_ceiling [where names = "[replicate 65536 (CHR ''a'')]" and vals = "[[]]"
        and minimal = False and flags = 0 and payload = "[]"]
    by simp_all
  have 4: "\<exists>bs. serialize_simple_headers [replicate 65535 (CHR ''a'')] [replicate 65535 7] False = Inr bs
         \<and> parse_simple_headers 0 bs [replicate 65535 (CHR ''a'')]
             = Inr ([replicate 65535 (CHR ''a'') \<mapsto> replicate 65535 7], [])"
    using header_size_ceiling [where names = "[replicate 65535 (CHR ''a'')]"
        and vals = "[replicate 65535 7]" and minimal = False and rest = "[]"]
    by simp
  have 5: "\<exists>bs. serialize_simple_headers [replicate 65535 (CHR ''a'')] [replicate 65535 7] True = Inr bs
         \<and> parse_simple_headers MINIMAL_HEADERS bs [replicate 65535 (CHR ''a'')]
             = Inr ([replicate 65535 (CHR ''a'') \<mapsto> replicate 65535 7], [])"
    using header_size_ceiling [where names = "[replicate 65535 (CHR ''a'')]"
        and vals = "[replicate 65535 7]" and minimal = True and rest = "[]"]
    by simp
  have 6: "length ''x-glob'' \<le> 65535 \<and> length [255 :: byte] \<le> 65535"
    using header_size_ceiling [where flags = 1 and payload = "[0, 1, 255]"
        and names = confirm_unsubscribe_glob_headers and h = "[''x-glob'' \<mapsto> [255]]"
        and k = "''x-glob''" and v = "[255]" and rest' = "[]"]
      example_headers_glob(2)
    by simp
  from 1 2 3 4 5 6 example_headers_glob(2) show ?thesis by simp
qed

lemma int_from_bytes_big_leading_zeros:
  "int_from_bytes_big (replicate k 0 @ bs) = int_from_bytes_big bs"
proof -
  have "foldl (\<lambda>acc b. acc * 256 + unat b) 0 (replicate k (0 :: byte)) = 0"
    by (induction k) simp_all
  then show ?thesis by (simp add: int_from_bytes_big_def)
qed

text \<open>
  Claim C9. The notify parsers accept numeric header values that are not minimal: every
  \<open>x-subscribers\<close> or \<open>x-part-id\<close> value of 0 to 8 bytes is read as a big-endian
  unsigned integer, the empty value is 0, and leading zero bytes do not change the
  result. So the frame ending in \<open>00 02 00 01\<close> and the frame ending in \<open>00 01 01\<close>
  parse to the same message, and serializing that message gives the second frame, not
  the first.
\<close>

theorem notify_parsers_accept_non_minimal:
  "(parse_simple_headers flags payload confirm_notify_headers = Inr (h, rest)
      \<and> h ''x-identifier'' = Some i \<and> h ''x-subscribers'' = Some s
      \<and> length i \<le> 64 \<and> length s \<le> 8 \<longrightarrow>
      B2S_ConfirmNotifyParser_parse flags CONFIRM_NOTIFY payload
        = Inr (B2S_ConfirmNotify CONFIRM_NOTIFY i (int_from_bytes_big s)))
   \<and> (parse_simple_headers flags payload continue_notify_headers = Inr (h, rest)
      \<and> h ''x-identifier'' = Some i \<and> h ''x-part-id'' = Some s
      \<and> length i \<le> 64 \<and> length s \<le> 8 \<longrightarrow>
      B2S_ContinueNotifyParser_parse flags CONTINUE_NOTIFY payload
        = Inr (B2S_ContinueNotify CONTINUE_NOTIFY i (int_from_bytes_big s)))
   \<and> int_from_bytes_big [] = 0
   \<and> int_from_bytes_big (replicate k 0 @ bs) = int_from_bytes_big bs
   \<and> parse_b2s_frame [1, 6, 0, 1, 170, 0, 2, 0, 1]
       = Inr (ConfirmNotify (B2S_ConfirmNotify CONFIRM_NOTIFY [170] 1))
   \<and> parse_b2s_frame [1, 6, 0, 1, 170, 0, 1, 1]
       = Inr (ConfirmNotify (B2S_ConfirmNotify CONFIRM_NOTIFY [170] 1))
   \<and> parse_b2s_frame [1, 6, 0, 1, 170, 0, 0]
       = Inr (ConfirmNotify (B2S_ConfirmNotify CONFIRM_NOTIFY [170] 0))
   \<and> serialize_b2s_message (ConfirmNotify (B2S_ConfirmNotify CONFIRM_NOTIFY [170] 1)) True
       = Inr [1, 6, 0, 1, 170, 0, 1, 1]
   \<and> parse_b2s_frame [1, 7, 0, 1, 170, 0, 2, 0, 1]
       = Inr (ContinueNotify (B2S_ContinueNotify CONTINUE_NOTIFY [170] 1))
   \<and> parse_b2s_frame [1, 7, 0, 1, 170, 0, 1, 1]
       = Inr (ContinueNotify (B2S_ContinueNotify CONTINUE_NOTIFY [170] 1))
   \<and> serialize_b2s_message (ContinueNotify (B2S_ContinueNotify CONTINUE_NOTIFY [170] 1)) True
       = Inr [1, 7, 0, 1, 170, 0, 1, 1]"
proof (intro conjI impI)
  assume "parse_simple_headers flags payload confirm_notify_headers = Inr (h, rest)
      \<and> h ''x-identifier'' = Some i \<and> h ''x-subscribers'' = Some s
      \<and> length i \<le> 64 \<and> length s \<le> 8"
  then show "B2S_ConfirmNotifyParser_parse flags CONFIRM_NOTIFY payload
        = Inr (B2S_ConfirmNotify CONFIRM_NOTIFY i (int_from_bytes_big s))"
    using confirm_notify_parse_headers [of flags payload h rest i s] by simp
next
  assume "parse_simple_headers flags payload continue_notify_headers = Inr (h, rest)
      \<and> h ''x-identifier'' = Some i \<and> h ''x-part-id'' = Some s
      \<and> length i \<le> 64 \<and> length s \<le> 8"
  then show "B2S_ContinueNotifyParser_parse flags CONTINUE_NOTIFY payload
        = Inr (B2S_ContinueNotify CONTINUE_NOTIFY i (int_from_bytes_big s))"
    using continue_notify_parse_headers [of flags payload h rest i s] by simp
next
  show "int_from_bytes_big [] = 0" by (rule int_from_bytes_big_Nil)
next
  show "int_from_bytes_big (replicate k 0 @ bs) = int_from_bytes_big bs"
    by (rule int_from_bytes_big_leading_zeros)
next
  show "parse_b2s_frame [1, 6, 0, 1, 170, 0, 2, 0, 1]
       = Inr (ConfirmNotify (B2S_ConfirmNotify CONFIRM_NOTIFY [170] 1))"
    by (simp add: parse_eval B2S_ConfirmNotifyParser_parse_def)
next
  show "parse_b2s_frame [1, 6, 0, 1, 170, 0, 1, 1]
       = Inr (ConfirmNotify (B2S_ConfirmNotify CONFIRM_NOTIFY [170] 1))"
    by (simp add: parse_eval B2S_ConfirmNotifyParser_parse_def)
next
  show "parse_b2s_frame [1, 6, 0, 1, 170, 0, 0]
       = Inr (ConfirmNotify (B2S_ConfirmNotify CONFIRM_NOTIFY [170] 0))"
    by (simp add: parse_eval B2S_ConfirmNotifyParser_parse_def)
next
  show "serialize_b2s_message (ConfirmNotify (B2S_ConfirmNotify CONFIRM_NOTIFY [170] 1)) True
       = Inr [1, 6, 0, 1, 170, 0, 1, 1]"
    by (simp add: serialize_eval int_to_minimal_unsigned_Suc_0)
next
  show "parse_b2s_frame [1, 7, 0, 1, 170, 0, 2, 0, 1]
       = Inr (ContinueNotify (B2S_ContinueNotify CONTINUE_NOTIFY [170] 1))"
    by (simp add: parse_eval B2S_ContinueNotifyParser_parse_def)
next
  show "parse_b2s_frame [1, 7, 0, 1, 170, 0, 1, 1]
       = Inr (ContinueNotify (B2S_ContinueNotify CONTINUE_NOTIFY [170] 1))"
    by (simp add: parse_eval B2S_ContinueNotifyParser_parse_def)
next
  show "serialize_b2s_message (ContinueNotify (B2S_ContinueNotify CONTINUE_NOTIFY [170] 1)) True
       = Inr [1, 7, 0, 1, 170, 0, 1, 1]"
    by (simp add: serialize_eval int_to_minimal_unsigned_Suc_0)
qed

lemma example_headers_non_minimal:
  "parse_simple_headers 1 [0, 1, 170, 0, 2, 0, 1] confirm_notify_headers
     = Inr ([''x-identifier'' \<mapsto> [170], ''x-subscribers'' \<mapsto> [0, 1]], [])"
  "parse_simple_headers 1 [0, 1, 170, 0, 0] continue_notify_headers
     = Inr ([''x-identifier'' \<mapsto> [170], ''x-part-id'' \<mapsto> []], [])"
  by (simp_all add: parse_eval)

text \<open>
  The theorem at a confirm-notify payload with the count \<open>00 01\<close> and at a
  continue-notify payload with the empty part id.
\<close>

theorem notify_parsers_accept_non_minimal_witness:
  "parse_simple_headers 1 [0, 1, 170, 0, 2, 0, 1] confirm_notify_headers
     = Inr ([''x-identifier'' \<mapsto> [170], ''x-subscribers'' \<mapsto> [0, 1]], [])
   \<and> length [170 :: byte] \<le> 64 \<and> length [0, 1 :: byte] \<le> 8
   \<and> B2S_ConfirmNotifyParser_parse 1 CONFIRM_NOTIFY [0, 1, 170, 0, 2, 0, 1]
       = Inr (B2S_ConfirmNotify CONFIRM_NOTIFY [170] 1)
   \<and> parse_simple_headers 1 [0, 1, 170, 0, 0] continue_notify_headers
     = Inr ([''x-identifier'' \<mapsto> [170], ''x-part-id'' \<mapsto> []], [])
   \<and> B2S_ContinueNotifyParser_parse 1 CONTINUE_NOTIFY [0, 1, 170, 0, 0]
       = Inr (B2S_ContinueNotify CONTINUE_NOTIFY [170] 0)"
proof -
  have b: "int_from_bytes_big [0, 1] = 1" "int_from_bytes_big [] = 0"
    by (simp_all add: int_from_bytes_big_def)
  have 1: "B2S_ConfirmNotifyParser_parse 1 CONFIRM_NOTIFY [0, 1, 170, 0, 2, 0, 1]
       = Inr (B2S_ConfirmNotify CONFIRM_NOTIFY [170] 1)"
    using notify_parsers_accept_non_minimal [where flags = 1 and payload = "[0, 1, 170, 0, 2, 0, 1]"
        and h = "[''x-identifier'' \<mapsto> [170], ''x-subscribers'' \<mapsto> [0, 1]]" and rest = "[]"
        and i = "[170]" and s = "[0, 1]"]
      example_headers_non_minimal(1) b
    by simp
  have 2: "B2S_ContinueNotifyParser_parse 1 CONTINUE_NOTIFY [0, 1, 170, 0, 0]
       = Inr (B2S_ContinueNotify CONTINUE_NOTIFY [170] 0)"
    using notify_parsers_accept_non_minimal [where flags = 1 and payload = "[0, 1, 170, 0, 0]"
        and h = "[''x-identifier'' \<mapsto> [170], ''x-part-id'' \<mapsto> []]" and rest = "[]"
        and i = "[170]" and s = "[]"]
      example_headers_non_minimal(2) b
    by simp
  from 1 2 example_headers_non_minimal show ?thesis by simp
qed

text \<open>
  Claim C10 says that the notify serializers succeed on any typed message. They do not:
  an identifier of 65536 bytes exceeds the ceiling of the header codec, and serializing
  fails with \<open>MalformedHeader\<close>.
\<close>

theorem notify_serializers_no_field_validation_counterexample:
  "serialize_b2s_confirm_notify (B2S_ConfirmNotify CONFIRM_NOTIFY (replicate 65536 0) 0) True
     = Inl MalformedHeader
   \<and> serialize_b2s_continue_notify (B2S_ContinueNotify CONTINUE_NOTIFY (replicate 65536 0) 0) False
     = Inl MalformedHeader"
proof -
  have "serialize_simple_headers confirm_notify_headers
          [replicate 65536 0, int_to_minimal_unsigned 0] True = Inl MalformedHeader"
    by (rule serialize_simple_headers_too_long) simp
  moreover have "serialize_simple_headers continue_notify_headers
          [replicate 65536 0, int_to_minimal_unsigned 0] False = Inl MalformedHeader"
    by (rule serialize_simple_headers_too_long) simp
  ultimately show ?thesis by (simp add: serialize_simple_message_def)
qed

text \<open>
  Claim C10, amended. The notify serializers validate no field of their own: on every
  message whose header values fit the 65535-byte ceiling of the header codec they
  succeed. When the identifier has more than 64 bytes, or \<open>subscribers\<close> (or \<open>part_id\<close>)
  is \<open>2^64\<close> or more, the frame they produce is rejected by their own parser with a
  \<open>ValueError\<close>; when neither is the case the frame parses back to the message. A
  message with a header value of more than 65535 bytes is not serialized at all: the
  serializers fail with \<open>MalformedHeader\<close>, whatever the discriminator.
\<close>

theorem notify_serializers_no_field_validation:
  "(length i \<le> 65535 \<and> length (int_to_minimal_unsigned n) \<le> 65535 \<longrightarrow>
     (\<exists>frame. serialize_b2s_confirm_notify (B2S_ConfirmNotify CONFIRM_NOTIFY i n) minimal = Inr frame
        \<and> (64 < length i \<or> 2 ^ 64 \<le> n \<longrightarrow> (\<exists>msg. parse_b2s_frame frame = Inl (ValueError msg)))
        \<and> (length i \<le> 64 \<and> n < 2 ^ 64 \<longrightarrow>
             parse_b2s_frame frame = Inr (ConfirmNotify (B2S_ConfirmNotify CONFIRM_NOTIFY i n))))
   \<and> (\<exists>frame. serialize_b2s_continue_notify (B2S_ContinueNotify CONTINUE_NOTIFY i n) minimal = Inr frame
        \<and> (64 < length i \<or> 2 ^ 64 \<le> n \<longrightarrow> (\<exists>msg. parse_b2s_frame frame = Inl (ValueError msg)))
        \<and> (length i \<le> 64 \<and> n < 2 ^ 64 \<longrightarrow>
             parse_b2s_frame frame = Inr (ContinueNotify (B2S_ContinueNotify CONTINUE_NOTIFY i n)))))
   \<and> (65535 < length i \<or> 65535 < length (int_to_minimal_unsigned n) \<longrightarrow>
        serialize_b2s_confirm_notify (B2S_ConfirmNotify t i n) minimal = Inl MalformedHeader
        \<and> serialize_b2s_continue_notify (B2S_ContinueNotify t i n) minimal = Inl MalformedHeader)"
proof -
  have within: "length i \<le> 65535 \<and> length (int_to_minimal_unsigned n) \<le> 65535 \<longrightarrow>
     (\<exists>frame. serialize_b2s_confirm_notify (B2S_ConfirmNotify CONFIRM_NOTIFY i n) minimal = Inr frame
        \<and> (64 < length i \<or> 2 ^ 64 \<le> n \<longrightarrow> (\<exists>msg. parse_b2s_frame frame = Inl (ValueError msg)))
        \<and> (length i \<le> 64 \<and> n < 2 ^ 64 \<longrightarrow>
             parse_b2s_frame frame = Inr (ConfirmNotify (B2S_ConfirmNotify CONFIRM_NOTIFY i n))))
   \<and> (\<exists>frame. serialize_b2s_continue_notify (B2S_ContinueNotify CONTINUE_NOTIFY i n) minimal = Inr frame
        \<and> (64 < length i \<or> 2 ^ 64 \<le> n \<longrightarrow> (\<exists>msg. parse_b2s_frame frame = Inl (ValueError msg)))
        \<and> (length i \<le> 64 \<and> n < 2 ^ 64 \<longrightarrow>
             parse_b2s_frame frame = Inr (ContinueNotify (B2S_ContinueNotify CONTINUE_NOTIFY i n))))"
  proof (intro impI)
    assume a: "length i \<le> 65535 \<and> length (int_to_minimal_unsigned n) \<le> 65535"
    then have i: "length i \<le> 65535" and n: "length (int_to_minimal_unsigned n) \<le> 65535"
      by simp_all
    have big: "2 ^ 64 \<le> n \<Longrightarrow> 8 < length (int_to_minimal_unsigned n)"
      by (rule length_int_to_minimal_unsigned_big)
    have small: "n < 2 ^ 64 \<Longrightarrow> length (int_to_minimal_unsigned n) \<le> 8"
      by (rule length_int_to_minimal_unsigned_u64)
    from confirm_notify_serialize_parse [OF i n, of minimal] obtain f where
      f: "serialize_b2s_confirm_notify (B2S_ConfirmNotify CONFIRM_NOTIFY i n) minimal = Inr f"
      and pf: "parse_b2s_frame f =
          (if 64 < length i then Inl (ValueError ''x-identifier must be at most 64 bytes'')
           else if 8 < length (int_to_minimal_unsigned n)
             then Inl (ValueError ''x-subscribers must be at most 8 bytes'')
           else Inr (ConfirmNotify (B2S_ConfirmNotify CONFIRM_NOTIFY i n)))"
      by blast
    from continue_notify_serialize_parse [OF i n, of minimal] obtain g where
      g: "serialize_b2s_continue_notify (B2S_ContinueNotify CONTINUE_NOTIFY i n) minimal = Inr g"
      and pg: "parse_b2s_frame g =
          (if 64 < length i then Inl (ValueError ''x-identifier must be at most 64 bytes'')
           else if 8 < length (int_to_minimal_unsigned n)
             then Inl (ValueError ''x-part-id must be at most 8 bytes'')
           else Inr (ContinueNotify (B2S_ContinueNotify CONTINUE_NOTIFY i n)))"
      by blast
    have 1: "64 < length i \<or> 2 ^ 64 \<le> n \<longrightarrow> (\<exists>msg. parse_b2s_frame f = Inl (ValueError msg))"
      using big unfolding pf by auto
    have 2: "length i \<le> 64 \<and> n < 2 ^ 64 \<longrightarrow>
               parse_b2s_frame f = Inr (ConfirmNotify (B2S_ConfirmNotify CONFIRM_NOTIFY i n))"
      using small unfolding pf by auto
    have 3: "64 < length i \<or> 2 ^ 64 \<le> n \<longrightarrow> (\<exists>msg. parse_b2s_frame g = Inl (ValueError msg))"
      using big unfolding pg by auto
    have 4: "length i \<le> 64 \<and> n < 2 ^ 64 \<longrightarrow>
               parse_b2s_frame g = Inr (ContinueNotify (B2S_ContinueNotify CONTINUE_NOTIFY i n))"
      using small unfolding pg by auto
    from f g 1 2 3 4 show "(\<exists>frame. serialize_b2s_confirm_notify (B2S_ConfirmNotify CONFIRM_NOTIFY i n) minimal = Inr frame
          \<and> (64 < length i \<or> 2 ^ 64 \<le> n \<longrightarrow> (\<exists>msg. parse_b2s_frame frame = Inl (ValueError msg)))
          \<and> (length i \<le> 64 \<and> n < 2 ^ 64 \<longrightarrow>
               parse_b2s_frame frame = Inr (ConfirmNotify (B2S_ConfirmNotify CONFIRM_NOTIFY i n))))
     \<and> (\<exists>frame. serialize_b2s_continue_notify (B2S_ContinueNotify CONTINUE_NOTIFY i n) minimal = Inr frame
          \<and> (64 < length i \<or> 2 ^ 64 \<le> n \<longrightarrow> (\<exists>msg. parse_b2s_frame frame = Inl (ValueError msg)))
          \<and> (length i \<le> 64 \<and> n < 2 ^ 64 \<longrightarrow>
               parse_b2s_frame frame = Inr (ContinueNotify (B2S_ContinueNotify CONTINUE_NOTIFY i n))))"
      by blast
  qed
  have over: "65535 < length i \<or> 65535 < length (int_to_minimal_unsigned n) \<longrightarrow>
        serialize_b2s_confirm_notify (B2S_ConfirmNotify t i n) minimal = Inl MalformedHeader
        \<and> serialize_b2s_continue_notify (B2S_ContinueNotify t i n) minimal = Inl MalformedHeader"
  proof (intro impI)
    assume "65535 < length i \<or> 65535 < length (int_to_minimal_unsigned n)"
    then have v: "\<exists>v \<in> set [i, int_to_minimal_unsigned n]. 65535 < length v" by auto
    have "serialize_simple_headers confirm_notify_headers
            [i, int_to_minimal_unsigned n] minimal = Inl MalformedHeader"
      by (rule serialize_simple_headers_too_long) (use v in blast)
    moreover have "serialize_simple_headers continue_notify_headers
            [i, int_to_minimal_unsigned n] minimal = Inl MalformedHeader"
      by (rule serialize_simple_headers_too_long) (use v in blast)
    ultimately show "serialize_b2s_confirm_notify (B2S_ConfirmNotify t i n) minimal = Inl MalformedHeader
        \<and> serialize_b2s_continue_notify (B2S_ContinueNotify t i n) minimal = Inl MalformedHeader"
      by (simp add: serialize_simple_message_def)
  qed
  from within over show ?thesis by (rule conjI)
qed

text \<open>
  The theorem at an identifier of 65 bytes, at a part id of \<open>2^64\<close>, at a valid
  message, and at an identifier of 65537 bytes.
\<close>

theorem notify_serializers_no_field_validation_witness:
  "length (replicate 65 (0 :: byte)) \<le> 65535 \<and> length (int_to_minimal_unsigned 0) \<le> 65535
   \<and> 64 < length (replicate 65 (0 :: byte))
   \<and> (\<exists>frame. serialize_b2s_confirm_notify
          (B2S_ConfirmNotify CONFIRM_NOTIFY (replicate 65 0) 0) True = Inr frame
        \<and> (\<exists>msg. parse_b2s_frame frame = Inl (ValueError msg)))
   \<and> length ([] :: bytes) \<le> 65535 \<and> length (int_to_minimal_unsigned (2 ^ 64)) \<le> 65535
   \<and> (2 :: nat) ^ 64 \<le> 2 ^ 64
   \<and> (\<exists>frame. serialize_b2s_continue_notify
          (B2S_ContinueNotify CONTINUE_NOTIFY [] (2 ^ 64)) False = Inr frame
        \<and> (\<exists>msg. parse_b2s_frame frame = Inl (ValueError msg)))
   \<and> length [7 :: byte] \<le> 64 \<and> (5 :: nat) < 2 ^ 64
   \<and> (\<exists>frame. serialize_b2s_confirm_notify (B2S_ConfirmNotify CONFIRM_NOTIFY [7] 5) True = Inr frame
        \<and> parse_b2s_frame frame = Inr (ConfirmNotify (B2S_ConfirmNotify CONFIRM_NOTIFY [7] 5)))
   \<and> 65535 < length (replicate 65537 (0 :: byte))
   \<and> serialize_b2s_continue_notify
         (B2S_ContinueNotify CONTINUE_NOTIFY (replicate 65537 0) 3) True = Inl MalformedHeader"
proof -
  have l0: "length (int_to_minimal_unsigned 0) \<le> 65535"
    by (simp add: int_to_minimal_unsigned_0)
  have "(2 :: nat) ^ 64 < 256 ^ 9" by simp
  then have "length (int_to_minimal_unsigned (2 ^ 64)) \<le> 9"
    by (rule length_int_to_minimal_unsigned_le) simp
  then have l64: "length (int_to_minimal_unsigned (2 ^ 64)) \<le> 65535" by simp
  have "(5 :: nat) < 256 ^ 1" by simp
  then have "length (int_to_minimal_unsigned 5) \<le> 1"
    by (rule length_int_to_minimal_unsigned_le) simp
  then have l5: "length (int_to_minimal_unsigned 5) \<le> 65535" by simp
  have 1: "\<exists>frame. serialize_b2s_confirm_notify
          (B2S_ConfirmNotify CONFIRM_NOTIFY (replicate 65 0) 0) True = Inr frame
        \<and> (\<exists>msg. parse_b2s_frame frame = Inl (ValueError msg))"
    using notify_serializers_no_field_validation [of "replicate 65 0" 0 True] l0 by auto
  have 2: "\<exists>frame. serialize_b2s_continue_notify
          (B2S_ContinueNotify CONTINUE_NOTIFY [] (2 ^ 64)) False = Inr frame
        \<and> (\<exists>msg. parse_b2s_frame frame = Inl (ValueError msg))"
    using notify_serializers_no_field_validation [of "[]" "2 ^ 64" False] l64 by auto
  have 3: "\<exists>frame. serialize_b2s_confirm_notify (B2S_ConfirmNotify CONFIRM_NOTIFY [7] 5) True = Inr frame
        \<and> parse_b2s_frame frame = Inr (ConfirmNotify (B2S_ConfirmNotify CONFIRM_NOTIFY [7] 5))"
    using notify_serializers_no_field_validation [of "[7]" 5 True] l5 by auto
  have 4: "serialize_b2s_continue_notify
         (B2S_ContinueNotify CONTINUE_NOTIFY (replicate 65537 0) 3) True = Inl MalformedHeader"
    using notify_serializers_no_field_validation [of "replicate 65537 0" 3 True CONTINUE_NOTIFY]
    by simp
  from 1 2 3 4 l0 l64 show ?thesis by simp
qed

lemma hex_small: "n < 16 \<Longrightarrow> hex n = [hex_digit n]"
  by (simp add: hex.simps [of n])

lemma hex_large: "16 \<le> n \<Longrightarrow> hex n = hex (n div 16) @ [hex_digit (n mod 16)]"
  by (simp add: hex.simps [of n])

lemma hex_nonempty: "hex n \<noteq> []"
  by (subst hex.simps) simp

lemma hex_digit_cases:
  "(d::nat) < 16 \<Longrightarrow> d \<in> {0, 1, 2, 3, 4, 5, 6, 7, 8, 9, 10, 11, 12, 13, 14, 15}"
  by simp arith

lemma hex_digit_value_digit: "d < 16 \<Longrightarrow> hex_digit_value (hex_digit d) = d"
  using hex_digit_cases [of d]
  by (auto simp: hex_digit_def hex_digit_value_def)

lemma hex_digit_in: "d < 16 \<Longrightarrow> hex_digit d \<in> set ''0123456789abcdef''"
  unfolding hex_digit_def by (rule nth_mem) simp

lemma hex_digit_zero: "d < 16 \<Longrightarrow> hex_digit d = CHR ''0'' \<Longrightarrow> d = 0"
  using hex_digit_value_digit [of d] by (simp add: hex_digit_value_def)

lemma hex_value_snoc: "hex_value (s @ [c]) = hex_value s * 16 + hex_digit_value c"
  by (simp add: hex_value_def)

lemma hex_value_hex: "hex_value (hex n) = n"
proof (induction n rule: hex.induct)
  case (1 n)
  show ?case
  proof (cases "n < 16")
    case True
    then show ?thesis by (simp add: hex_small hex_value_def hex_digit_value_digit)
  next
    case False
    with 1 show ?thesis by (simp add: hex_large hex_value_snoc hex_digit_value_digit)
  qed
qed

lemma hex_alphabet: "set (hex n) \<subseteq> set ''0123456789abcdef''"
proof (induction n rule: hex.induct)
  case (1 n)
  show ?case
  proof (cases "n < 16")
    case True
    then show ?thesis using hex_digit_in [of n] by (simp add: hex_small)
  next
    case False
    have "hex_digit (n mod 16) \<in> set ''0123456789abcdef''" by (rule hex_digit_in) simp
    with False 1 show ?thesis by (simp add: hex_large)
  qed
qed

lemma hex_unpadded: "n \<noteq> 0 \<Longrightarrow> hd (hex n) \<noteq> CHR ''0''"
proof (induction n rule: hex.induct)
  case (1 n)
  show ?case
  proof (cases "n < 16")
    case True
    with 1(2) hex_digit_zero [of n] show ?thesis by (auto simp: hex_small)
  next
    case False
    then have "n div 16 \<noteq> 0" by simp
    with 1(1) [OF False] have "hd (hex (n div 16)) \<noteq> CHR ''0''" by simp
    with False show ?thesis by (simp add: hex_large hex_nonempty)
  qed
qed

lemma example_hex: "hex 26 = ''1a''" "hex 1224979098644774911 = ''10ffffffffffffff''"
  by (simp_all add: hex_small hex_large hex_digit_def)

section \<open>The claims about authorization tokens\<close>





















text \<open>
  Claim C5. For 32-byte contributions the connection nonce is the hash of the 64 bytes of
  their concatenation, subscriber first. A token is \<open>websocket:\<close>, the base64url form of
  the nonce, a colon, and the counter in hexadecimal with a leading minus when negative.
  The hexadecimal numeral is never empty, uses the digits \<open>0-9a-f\<close> only (so it has no
  \<open>0x\<close>), has no leading zero unless the number is zero, and reads back to the
  number. The two examples of the protocol documentation come out as printed there.
\<close>

theorem authorization_token_format:
  "(length sn = 32 \<and> length bn = 32 \<longrightarrow>
      derive_connection_nonce sha256 sn bn = sha256 (sn @ bn)
      \<and> length (sn @ bn) = 64
      \<and> connection_nonce (on_confirm_configure sha256 sn bn) = sha256 (sn @ bn))
   \<and> authorization_token base64url nonce ctr =
       ''websocket:'' @ base64url nonce @ '':''
         @ (if ctr < 0 then ''-'' @ hex (nat (- ctr)) else hex (nat ctr))
   \<and> hex n \<noteq> [] \<and> set (hex n) \<subseteq> set ''0123456789abcdef''
   \<and> (n \<noteq> 0 \<longrightarrow> hd (hex n) \<noteq> CHR ''0'')
   \<and> hex_value (hex n) = n
   \<and> authorization_token (\<lambda>nonce. ''abc123'') nonce (- 26) = ''websocket:abc123:-1a''
   \<and> authorization_token (\<lambda>nonce. ''abc123'') nonce 1224979098644774911
       = ''websocket:abc123:10ffffffffffffff''"
proof -
  have "authorization_token base64url nonce ctr =
       ''websocket:'' @ base64url nonce @ '':''
         @ (if ctr < 0 then ''-'' @ hex (nat (- ctr)) else hex (nat ctr))"
    by (simp add: authorization_token_def format_counter_def)
  moreover have "authorization_token (\<lambda>nonce. ''abc123'') nonce (- 26) = ''websocket:abc123:-1a''"
    and "authorization_token (\<lambda>nonce. ''abc123'') nonce 1224979098644774911
       = ''websocket:abc123:10ffffffffffffff''"
    by (simp_all add: authorization_token_def format_counter_def example_hex)
  moreover have "length sn = 32 \<and> length bn = 32 \<longrightarrow>
      derive_connection_nonce sha256 sn bn = sha256 (sn @ bn)
      \<and> length (sn @ bn) = 64
      \<and> connection_nonce (on_confirm_configure sha256 sn bn) = sha256 (sn @ bn)"
    by (simp add: derive_connection_nonce_def on_confirm_configure_def)
  ultimately show ?thesis
    using hex_nonempty [of n] hex_alphabet [of n] hex_unpadded [of n] hex_value_hex [of n]
    by blast
qed

text \<open>The theorem at two 32-byte contributions and at the counter -26.\<close>

theorem authorization_token_format_witness:
  "length (replicate 32 (1 :: byte)) = 32 \<and> length (replicate 32 (2 :: byte)) = 32
   \<and> derive_connection_nonce rev (replicate 32 1) (replicate 32 2)
       = rev (replicate 32 1 @ replicate 32 2)
   \<and> connection_nonce (on_confirm_configure rev (replicate 32 1) (replicate 32 2))
       = rev (replicate 32 1 @ replicate 32 2)
   \<and> (26 :: nat) \<noteq> 0 \<and> hex 26 = ''1a'' \<and> hd (hex 26) \<noteq> CHR ''0'' \<and> hex_value (hex 26) = 26
   \<and> authorization_token (\<lambda>nonce. ''abc123'') [] (- 26) = ''websocket:abc123:-1a''"
proof -
  have l: "length (replicate 32 (1 :: byte)) = 32 \<and> length (replicate 32 (2 :: byte)) = 32"
    by simp
  from authorization_token_format [of "replicate 32 1" "replicate 32 2" rev _ "[]" _ 26] l
    example_hex(1)
  show ?thesis by simp
qed

end
